theory Spec2Isabelle
  imports Complex_Main "HOL-Library.Sublist" "HOL-Library.Log_Nat"
begin

section \<open>Data model of ai_player.js\<close>

text \<open>
  The sides of the game.  The source writes them as the strings "white" and "black":
  it compares the colour of a piece, the winner and the player with \<^verbatim>\<open>===\<close>, and takes the
  other side with \<^verbatim>\<open>aiPlayerColor === "white" ? "black" : "white"\<close>.  A colour is one of
  these two values; the engine puts no other value in \<^verbatim>\<open>piece.color\<close>, \<^verbatim>\<open>currentPlayer\<close>
  or \<^verbatim>\<open>winner\<close>.
\<close>

datatype color = White | Black

fun opposite :: "color \<Rightarrow> color" where
  "opposite White = Black"
| "opposite Black = White"

text \<open>
  A piece as the source reads it: \<^verbatim>\<open>piece.type\<close> (a string, dispatched on by
  \<^verbatim>\<open>getPieceValue\<close>), \<^verbatim>\<open>piece.color\<close> and \<^verbatim>\<open>piece.position\<close>.  The source never looks
  inside a board coordinate, so its type is a parameter \<open>'p\<close>.
\<close>

record 'p piece =
  type :: string
  color :: color
  position :: "'p"

text \<open>
  JavaScript numbers as the search produces them: a finite material balance or one of
  the two infinities.  Material balances are sums of the integer piece values, which a
  double holds exactly for any board that fits in memory, so the finite values are \<open>int\<close>.
\<close>

datatype score = NegInf | Fin int | PosInf

fun score_le :: "score \<Rightarrow> score \<Rightarrow> bool" where
  "score_le NegInf _ = True"
| "score_le _ PosInf = True"
| "score_le (Fin a) (Fin b) = (a \<le> b)"
| "score_le _ _ = False"

instantiation score :: linorder
begin

definition less_eq_score :: "score \<Rightarrow> score \<Rightarrow> bool" where
  "less_eq_score a b = score_le a b"

definition less_score :: "score \<Rightarrow> score \<Rightarrow> bool" where
  "less_score a b = (score_le a b \<and> \<not> score_le b a)"

instance
proof
  fix x y z :: score
  show "(x < y) = (x \<le> y \<and> \<not> y \<le> x)"
    by (simp add: less_eq_score_def less_score_def)
  show "x \<le> x"
    by (cases x) (simp_all add: less_eq_score_def)
  show "x \<le> y \<Longrightarrow> y \<le> z \<Longrightarrow> x \<le> z"
    by (cases x; cases y; cases z) (simp_all add: less_eq_score_def)
  show "x \<le> y \<Longrightarrow> y \<le> x \<Longrightarrow> x = y"
    by (cases x; cases y) (simp_all add: less_eq_score_def)
  show "x \<le> y \<or> y \<le> x"
    by (cases x; cases y) (auto simp add: less_eq_score_def)
qed

end

text \<open>
  A candidate move \<^verbatim>\<open>{ piece: piece, to: targetSquare, from: piece.position }\<close>.
\<close>

record 'p move =
  move_piece :: "'p piece"
  move_from :: "'p"
  move_to :: "'p"

text \<open>
  The game object.  The fields are the ones ai_player.js reads or assigns:
  \<^verbatim>\<open>pieces\<close>, \<^verbatim>\<open>currentPlayer\<close>, \<^verbatim>\<open>winner\<close> (a side, or a falsy value when nobody has
  won), \<^verbatim>\<open>currentPiece\<close>, \<^verbatim>\<open>possibleMoves\<close> and \<^verbatim>\<open>pawnThatReachedEnd\<close>.  Whatever else
  the rules engine keeps in the object is the field \<open>internal\<close>.
\<close>

record ('p, 'e) game =
  pieces :: "'p piece list"
  currentPlayer :: color
  winner :: "color option"
  currentPiece :: "'p piece option"
  possibleMoves :: "'p list"
  pawnThatReachedEnd :: "'p piece option"
  internal :: "'e"

text \<open>The object returned by \<^verbatim>\<open>checkPawnPromotion\<close>.\<close>

record 'p promotion =
  needsPromotion :: bool
  pawn :: "'p piece option"

text \<open>
  The rules engine \<^verbatim>\<open>GameGlobal.Game\<close> is not part of ai_player.js; the search only calls
  its methods.  Each method is a parameter here: one field per method the source calls,
  applied to the game object it is called on.  A method that changes its object returns
  the changed object.  \<open>'m\<close> is the occupancy map built by \<^verbatim>\<open>generateCurrentMap\<close>, \<open>'x\<close>
  the data produced by \<^verbatim>\<open>export\<close> and consumed by the constructor.
\<close>

record ('p, 'e, 'm, 'x) engine =
  isFinished :: "('p, 'e) game \<Rightarrow> bool"
  isCheck :: "('p, 'e) game \<Rightarrow> color \<Rightarrow> bool"
  generateCurrentMap :: "('p, 'e) game \<Rightarrow> 'm"
  getMoves :: "('p, 'e) game \<Rightarrow> 'p piece \<Rightarrow> 'm \<Rightarrow> 'p list"
  export :: "('p, 'e) game \<Rightarrow> 'x"
  new_Game :: "'x \<Rightarrow> ('p, 'e) game"
  findPieceByPosition :: "('p, 'e) game \<Rightarrow> 'p \<Rightarrow> 'p piece option"
  canTakeWithSelected :: "('p, 'e) game \<Rightarrow> 'p piece \<Rightarrow> bool"
  canMoveSelected :: "('p, 'e) game \<Rightarrow> 'p \<Rightarrow> bool"
  takeWithSelected :: "('p, 'e) game \<Rightarrow> 'p piece \<Rightarrow> ('p, 'e) game"
  moveSelected :: "('p, 'e) game \<Rightarrow> 'p \<Rightarrow> ('p, 'e) game"
  checkPawnPromotion :: "('p, 'e) game \<Rightarrow> 'p piece option \<Rightarrow> 'p promotion"
  finalizePawnPromotion :: "('p, 'e) game \<Rightarrow> string \<Rightarrow> ('p, 'e) game"
  toggleCurrentPlayer :: "('p, 'e) game \<Rightarrow> ('p, 'e) game"

section \<open>Board evaluation\<close>

text \<open>\<^verbatim>\<open>GameGlobal.AIEngine.getPieceValue\<close>: the \<^verbatim>\<open>switch\<close> with its \<^verbatim>\<open>default\<close> branch.\<close>

definition getPieceValue :: "string \<Rightarrow> int" where
  "getPieceValue pieceType =
     (if pieceType = ''pawn'' then 100
      else if pieceType = ''knight'' then 320
      else if pieceType = ''bishop'' then 330
      else if pieceType = ''rook'' then 500
      else if pieceType = ''queen'' then 900
      else if pieceType = ''king'' then 20000
      else 0)"

text \<open>
  \<^verbatim>\<open>GameGlobal.AIEngine.evaluateBoard\<close> reads only \<^verbatim>\<open>gameInstance.pieces\<close>; the loop
  \<^verbatim>\<open>_.each\<close> runs over the pieces in order, adding to or subtracting from \<^verbatim>\<open>score\<close>.
\<close>

definition evaluateBoard_step :: "color \<Rightarrow> 'p piece \<Rightarrow> int \<Rightarrow> int" where
  "evaluateBoard_step playerColor p score =
     (let pieceValue = getPieceValue (type p)
      in if color p = playerColor then score + pieceValue else score - pieceValue)"

definition evaluatePieces :: "'p piece list \<Rightarrow> color \<Rightarrow> int" where
  "evaluatePieces ps playerColor = fold (evaluateBoard_step playerColor) ps 0"

text \<open>The material of one side: the sum of the values of its pieces.\<close>

definition material :: "'p piece list \<Rightarrow> color \<Rightarrow> int" where
  "material ps c = sum_list (map (\<lambda>p. getPieceValue (type p)) (filter (\<lambda>p. color p = c) ps))"

definition evaluateBoard :: "('p, 'e) game \<Rightarrow> color \<Rightarrow> int" where
  "evaluateBoard gameInstance playerColor = evaluatePieces (pieces gameInstance) playerColor"

section \<open>Move enumeration and simulation\<close>

text \<open>
  The enumeration at the head of \<^verbatim>\<open>minimax\<close> and of \<^verbatim>\<open>chooseMove\<close>: for every piece of
  the side, in the order of \<^verbatim>\<open>pieces\<close>, one move per square returned by \<^verbatim>\<open>getMoves\<close>.
\<close>

definition legalMoves :: "('p, 'e, 'm, 'x) engine \<Rightarrow> ('p, 'e) game \<Rightarrow> color \<Rightarrow> 'p move list" where
  "legalMoves E g player =
     concat (map (\<lambda>piece.
        map (\<lambda>targetSquare. \<lparr>move_piece = piece, move_from = position piece, move_to = targetSquare\<rparr>)
            (getMoves E g piece (generateCurrentMap E g)))
       (filter (\<lambda>p. color p = player) (pieces g)))"

text \<open>
  The end of a simulated move, the same in all three loops: promotion to a queen when
  the engine asks for it, then \<^verbatim>\<open>currentPlayer\<close> is set and toggled.
\<close>

definition finishMove :: "('p, 'e, 'm, 'x) engine \<Rightarrow> ('p, 'e) game \<Rightarrow> color \<Rightarrow> ('p, 'e) game" where
  "finishMove E childGameSim player =
     (let promoDetails = checkPawnPromotion E childGameSim (currentPiece childGameSim);
          childGameSim =
            (if needsPromotion promoDetails
             then finalizePawnPromotion E (childGameSim\<lparr>pawnThatReachedEnd := pawn promoDetails\<rparr>) ''queen''
             else childGameSim);
          childGameSim = childGameSim\<lparr>currentPlayer := player\<rparr>
      in toggleCurrentPlayer E childGameSim)"

text \<open>
  The body of the two loops of \<^verbatim>\<open>minimax\<close> up to the recursive call.  \<open>None\<close> is a
  \<^verbatim>\<open>continue\<close>: no piece at the origin of the move in the copy, or a piece of the same
  side on the target square.
\<close>

definition simulateMove ::
  "('p, 'e, 'm, 'x) engine \<Rightarrow> ('p, 'e) game \<Rightarrow> 'p move \<Rightarrow> color \<Rightarrow> ('p, 'e) game option" where
  "simulateMove E gameInstanceSim move player =
     (let childGameSim = new_Game E (export E gameInstanceSim) in
      case findPieceByPosition E childGameSim (move_from move) of
        None \<Rightarrow> None
      | Some pieceToMoveInSim \<Rightarrow>
          (let childGameSim = childGameSim\<lparr>currentPiece := Some pieceToMoveInSim\<rparr>;
               childGameSim = childGameSim\<lparr>possibleMoves :=
                 getMoves E childGameSim pieceToMoveInSim (generateCurrentMap E childGameSim)\<rparr>
           in case findPieceByPosition E childGameSim (move_to move) of
                Some pieceAtTargetInSim \<Rightarrow>
                  if color pieceAtTargetInSim \<noteq> color pieceToMoveInSim
                  then Some (finishMove E (takeWithSelected E childGameSim pieceAtTargetInSim)
                               player)
                  else None
              | None \<Rightarrow>
                  Some (finishMove E (moveSelected E childGameSim (move_to move))
                          player)))"

section \<open>The minimax search\<close>

text \<open>
  A \<^verbatim>\<open>for\<close> loop over a list whose body may call a function that does not return:
  the loop returns the final accumulator, or nothing when a call inside it diverges.
\<close>

fun for_each :: "'a list \<Rightarrow> ('a \<Rightarrow> 's \<Rightarrow> 's option) \<Rightarrow> 's \<Rightarrow> 's option" where
  "for_each [] body s = Some s"
| "for_each (x # xs) body s = Option.bind (body x s) (for_each xs body)"

lemma for_each_mono [partial_function_mono]:
  assumes "\<And>x s. mono_option (\<lambda>f. body f x s)"
  shows "mono_option (\<lambda>f. for_each xs (body f) s)"
proof (induction xs arbitrary: s)
  case Nil
  show ?case by (simp add: option.const_mono)
next
  case (Cons x xs)
  show ?case
    unfolding for_each.simps
    by (rule bind_mono) (rule assms, rule Cons.IH)
qed

text \<open>
  The side that moves at a node:
  \<^verbatim>\<open>isMaximizingPlayer ? aiPlayerColor : (aiPlayerColor === "white" ? "black" : "white")\<close>.
\<close>

definition playerForThisTurn :: "bool \<Rightarrow> color \<Rightarrow> color" where
  "playerForThisTurn isMaximizingPlayer aiPlayerColor =
     (if isMaximizingPlayer then aiPlayerColor
      else (if aiPlayerColor = White then Black else White))"

text \<open>
  \<^verbatim>\<open>minimax\<close>.  \<^verbatim>\<open>depth\<close> is a JavaScript number compared with \<^verbatim>\<open>=== 0\<close> and
  decremented, so it is an \<open>int\<close>, and a call that never returns has the value \<open>None\<close>.
\<close>

partial_function (option) minimax ::
  "('p, 'e, 'm, 'x) engine \<Rightarrow> ('p, 'e) game \<Rightarrow> int \<Rightarrow> bool \<Rightarrow> color \<Rightarrow> score option" where
  "minimax E gameInstanceSim depth isMaximizingPlayer aiPlayerColor =
     (if depth = 0 \<or> isFinished E gameInstanceSim then
        (case winner gameInstanceSim of
           Some w \<Rightarrow> if w = aiPlayerColor then Some PosInf else Some NegInf
         | None \<Rightarrow> Some (Fin (evaluateBoard gameInstanceSim aiPlayerColor)))
      else
        (let player = playerForThisTurn isMaximizingPlayer aiPlayerColor;
             legalMoves = legalMoves E gameInstanceSim player
         in if legalMoves = [] then
              (if isCheck E gameInstanceSim player
               then (if isMaximizingPlayer then Some NegInf else Some PosInf)
               else Some (Fin 0))
            else if isMaximizingPlayer then
              for_each legalMoves
                (\<lambda>move maxEval.
                   case simulateMove E gameInstanceSim move player of
                     None \<Rightarrow> Some maxEval
                   | Some childGameSim \<Rightarrow>
                       Option.bind (minimax E childGameSim (depth - 1) False aiPlayerColor)
                         (\<lambda>evalScore. Some (max maxEval evalScore)))
                NegInf
            else
              for_each legalMoves
                (\<lambda>move minEval.
                   case simulateMove E gameInstanceSim move player of
                     None \<Rightarrow> Some minEval
                   | Some childGameSim \<Rightarrow>
                       Option.bind (minimax E childGameSim (depth - 1) True aiPlayerColor)
                         (\<lambda>evalScore. Some (min minEval evalScore)))
                PosInf))"

declare minimax.simps [code]

text \<open>
  The description of a node's children, in the words of the search's specification, to
  be compared with the loop bodies of \<^verbatim>\<open>minimax\<close> above.  Every legal move is tried on a
  fresh copy of the state.  The simulation faults when no piece is found at the origin of
  the move in the copy, or when the target square holds a piece of the same side as the
  moved piece.  Otherwise the child is the copy after the move: the piece is selected,
  it takes the piece of the other side on the target square or goes to the empty target
  square, a pawn that the engine says must promote becomes a queen, and the side to move
  is toggled.
\<close>

definition spec_clone :: "('p, 'e, 'm, 'x) engine \<Rightarrow> ('p, 'e) game \<Rightarrow> ('p, 'e) game" where
  "spec_clone E state = new_Game E (export E state)"

definition spec_select ::
  "('p, 'e, 'm, 'x) engine \<Rightarrow> ('p, 'e) game \<Rightarrow> 'p piece \<Rightarrow> ('p, 'e) game" where
  "spec_select E state p =
     (let c = (spec_clone E state)\<lparr>currentPiece := Some p\<rparr>
      in c\<lparr>possibleMoves := getMoves E c p (generateCurrentMap E c)\<rparr>)"

definition spec_origin_missing ::
  "('p, 'e, 'm, 'x) engine \<Rightarrow> ('p, 'e) game \<Rightarrow> 'p move \<Rightarrow> bool" where
  "spec_origin_missing E state move =
     (findPieceByPosition E (spec_clone E state) (move_from move) = None)"

definition spec_target_same_color ::
  "('p, 'e, 'm, 'x) engine \<Rightarrow> ('p, 'e) game \<Rightarrow> 'p move \<Rightarrow> bool" where
  "spec_target_same_color E state move =
     (case findPieceByPosition E (spec_clone E state) (move_from move) of
        None \<Rightarrow> False
      | Some p \<Rightarrow>
          (case findPieceByPosition E (spec_select E state p) (move_to move) of
             None \<Rightarrow> False
           | Some q \<Rightarrow> color q = color p))"

definition spec_faults ::
  "('p, 'e, 'm, 'x) engine \<Rightarrow> ('p, 'e) game \<Rightarrow> 'p move \<Rightarrow> bool" where
  "spec_faults E state move =
     (spec_origin_missing E state move \<or> spec_target_same_color E state move)"

text \<open>The child for a move that does not fault (for a move that faults the value is not used).\<close>

definition spec_child ::
  "('p, 'e, 'm, 'x) engine \<Rightarrow> ('p, 'e) game \<Rightarrow> 'p move \<Rightarrow> color \<Rightarrow> ('p, 'e) game" where
  "spec_child E state move player =
     (case findPieceByPosition E (spec_clone E state) (move_from move) of
        None \<Rightarrow> spec_clone E state
      | Some p \<Rightarrow>
          (let c = spec_select E state p;
               c = (case findPieceByPosition E c (move_to move) of
                      Some q \<Rightarrow> takeWithSelected E c q
                    | None \<Rightarrow> moveSelected E c (move_to move));
               promo = checkPawnPromotion E c (currentPiece c);
               c = (if needsPromotion promo
                    then finalizePawnPromotion E (c\<lparr>pawnThatReachedEnd := pawn promo\<rparr>) ''queen''
                    else c)
           in toggleCurrentPlayer E (c\<lparr>currentPlayer := player\<rparr>)))"

section \<open>Move selection\<close>

definition SEARCH_DEPTH :: int where
  "SEARCH_DEPTH = 2"

text \<open>
  The body of the loop of \<^verbatim>\<open>chooseMove\<close> up to the call of \<^verbatim>\<open>minimax\<close>.  Unlike the loops
  of \<^verbatim>\<open>minimax\<close> it asks the engine \<^verbatim>\<open>canTakeWithSelected\<close> or \<^verbatim>\<open>canMoveSelected\<close> first;
  \<open>None\<close> is a \<^verbatim>\<open>continue\<close>.
\<close>

definition simulateRootMove ::
  "('p, 'e, 'm, 'x) engine \<Rightarrow> ('p, 'e) game \<Rightarrow> 'p move \<Rightarrow> color \<Rightarrow> ('p, 'e) game option" where
  "simulateRootMove E gameInstance move aiColor =
     (let gameSim = new_Game E (export E gameInstance) in
      case findPieceByPosition E gameSim (move_from move) of
        None \<Rightarrow> None
      | Some pieceToMoveInSim \<Rightarrow>
          (let gameSim = gameSim\<lparr>currentPiece := Some pieceToMoveInSim\<rparr>;
               gameSim = gameSim\<lparr>possibleMoves :=
                 getMoves E gameSim pieceToMoveInSim (generateCurrentMap E gameSim)\<rparr>
           in case findPieceByPosition E gameSim (move_to move) of
                Some pieceAtTargetInSim \<Rightarrow>
                  if color pieceAtTargetInSim \<noteq> color pieceToMoveInSim
                  then (if canTakeWithSelected E gameSim pieceAtTargetInSim
                        then Some (finishMove E (takeWithSelected E gameSim pieceAtTargetInSim) aiColor)
                        else None)
                  else None
              | None \<Rightarrow>
                  if canMoveSelected E gameSim (move_to move)
                  then Some (finishMove E (moveSelected E gameSim (move_to move)) aiColor)
                  else None))"

text \<open>
  JavaScript numbers in \<^verbatim>\<open>chooseMove\<close> are doubles.  A double is modelled by the rational
  number that is its exact value.  \<open>round_double\<close> rounds a rational to the nearest
  double, ties going to the even significand, as an arithmetic operation and the reading
  of a literal do: with \<open>e\<close> the exponent of \<open>x\<close> (\<open>2 ^ e \<le> \<bar>x\<bar> < 2 ^ (e + 1)\<close>), the
  doubles near \<open>x\<close> are the multiples of \<open>2 ^ (e - 52)\<close>, and of \<open>2 ^ (- 1074)\<close> below the
  normal range.  (Overflow to an infinity is left out: it takes a product of at least
  \<open>2 ^ 1024\<close>, which as an index is outside every array anyway.)
\<close>

definition pow2 :: "int \<Rightarrow> rat" where
  "pow2 k = (if 0 \<le> k then 2 ^ nat k else 1 / 2 ^ nat (- k))"

text \<open>The exponent of a positive rational: bit lengths give it up to one, a comparison decides.\<close>

definition ilog2 :: "rat \<Rightarrow> int" where
  "ilog2 x =
     (case quotient_of x of (a, b) \<Rightarrow>
        (let k = bitlen a - bitlen b in if pow2 k \<le> x then k else k - 1))"

definition round_half_even :: "rat \<Rightarrow> int" where
  "round_half_even m =
     (let f = \<lfloor>m\<rfloor>; d = m - of_int f
      in if d < 1 / 2 then f
         else if 1 / 2 < d then f + 1
         else (if even f then f else f + 1))"

definition round_double :: "rat \<Rightarrow> rat" where
  "round_double x =
     (if x = 0 then 0
      else (let q = max (ilog2 \<bar>x\<bar>) (- 1022) - 52
            in of_int (round_half_even (x / pow2 q)) * pow2 q))"

text \<open>The literal \<^verbatim>\<open>0.3\<close> of the source: the double nearest to 3/10, which is below 3/10.\<close>

definition double_0_3 :: rat where
  "double_0_3 = round_double (3 / 10)"

text \<open>
  \<^verbatim>\<open>Math.random()\<close> is the function \<open>rnd\<close>: \<open>rnd n\<close> is the exact value of the double
  returned by the call number \<open>n\<close> made by one run of \<^verbatim>\<open>chooseMove\<close>.  The source uses it
  in \<^verbatim>\<open>Math.random() < 0.3\<close>, a comparison of two doubles, and in
  \<^verbatim>\<open>Math.floor(Math.random() * possibleAIMoves.length)\<close>, where the product is a double
  multiplication, so it is rounded before \<^verbatim>\<open>Math.floor\<close> is taken.

  \<^verbatim>\<open>possibleAIMoves[Math.floor(r * possibleAIMoves.length)]\<close>: an index outside the
  array reads \<^verbatim>\<open>undefined\<close>, here \<open>None\<close>.
\<close>

definition pickRandom :: "rat \<Rightarrow> 'a list \<Rightarrow> 'a option" where
  "pickRandom r xs =
     (let i = \<lfloor>round_double (r * of_nat (length xs))\<rfloor>
      in if 0 \<le> i \<and> i < int (length xs) then Some (xs ! nat i) else None)"

text \<open>
  One turn of the loop of \<^verbatim>\<open>chooseMove\<close> over \<^verbatim>\<open>possibleAIMoves\<close>.  The loop state is
  \<^verbatim>\<open>bestMove\<close> (\<open>None\<close> for \<^verbatim>\<open>null\<close>), \<^verbatim>\<open>bestScore\<close> and the number of calls of
  \<^verbatim>\<open>Math.random\<close> made so far.  \<open>updateBest\<close> is the comparison of \<^verbatim>\<open>currentMoveScore\<close>
  with \<^verbatim>\<open>bestScore\<close> at the end of the turn, with the tie-break.
\<close>

definition updateBest ::
  "(nat \<Rightarrow> rat) \<Rightarrow> 'p move \<Rightarrow> 'p move option \<times> score \<times> nat \<Rightarrow> score \<Rightarrow>
   'p move option \<times> score \<times> nat" where
  "updateBest rnd move st currentMoveScore =
     (case st of (bestMove, bestScore, n) \<Rightarrow>
        if currentMoveScore > bestScore then (Some move, currentMoveScore, n)
        else if currentMoveScore = bestScore then
          (if rnd n < double_0_3 then (Some move, bestScore, n + 1)
           else (bestMove, bestScore, n + 1))
        else (bestMove, bestScore, n))"

definition rootStep ::
  "('p, 'e, 'm, 'x) engine \<Rightarrow> (nat \<Rightarrow> rat) \<Rightarrow> ('p, 'e) game \<Rightarrow> color \<Rightarrow> 'p move \<Rightarrow>
   'p move option \<times> score \<times> nat \<Rightarrow> ('p move option \<times> score \<times> nat) option" where
  "rootStep E rnd gameInstance aiColor move st =
     (case simulateRootMove E gameInstance move aiColor of
        None \<Rightarrow> Some st
      | Some gameSim \<Rightarrow>
          Option.bind (minimax E gameSim (SEARCH_DEPTH - 1) False aiColor)
            (\<lambda>currentMoveScore. Some (updateBest rnd move st currentMoveScore)))"

definition selectBest ::
  "('p, 'e, 'm, 'x) engine \<Rightarrow> (nat \<Rightarrow> rat) \<Rightarrow> ('p, 'e) game \<Rightarrow>
   ('p move option \<times> score \<times> nat) option" where
  "selectBest E rnd gameInstance =
     (let aiColor = currentPlayer gameInstance
      in for_each (legalMoves E gameInstance aiColor) (rootStep E rnd gameInstance aiColor)
           (None, NegInf, 0))"

text \<open>
  What a call of \<^verbatim>\<open>chooseMove\<close> produces: a move object, \<^verbatim>\<open>null\<close>, or the \<^verbatim>\<open>TypeError\<close>
  raised by \<^verbatim>\<open>randomFallbackMove.piece\<close> when \<^verbatim>\<open>randomFallbackMove\<close> is \<^verbatim>\<open>undefined\<close>.
\<close>

datatype 'p chosen = Move "'p move" | Null | TypeError

text \<open>The part of \<^verbatim>\<open>chooseMove\<close> after the loop (from \<^verbatim>\<open>if (!bestMove && ...)\<close> on).\<close>

definition resolveMove ::
  "('p, 'e, 'm, 'x) engine \<Rightarrow> (nat \<Rightarrow> rat) \<Rightarrow> ('p, 'e) game \<Rightarrow> 'p move list \<Rightarrow>
   'p move option \<times> score \<times> nat \<Rightarrow> 'p chosen" where
  "resolveMove E rnd gameInstance possibleAIMoves st =
     (case st of (bestMove, bestScore, n) \<Rightarrow>
        (let (bestMove, n) =
               (if bestMove = None \<and> length possibleAIMoves > 0
                then (pickRandom (rnd n) possibleAIMoves, n + 1)
                else (bestMove, n));
             finalMoveObject =
               (case bestMove of
                  None \<Rightarrow> None
                | Some m \<Rightarrow>
                    (case findPieceByPosition E gameInstance (move_from m) of
                       None \<Rightarrow> None
                     | Some originalPieceForBestMove \<Rightarrow>
                         Some \<lparr>move_piece = originalPieceForBestMove,
                               move_from = move_from m, move_to = move_to m\<rparr>))
         in case finalMoveObject of
              Some mv \<Rightarrow> Move mv
            | None \<Rightarrow>
                if length possibleAIMoves > 0 then
                  (case pickRandom (rnd n) possibleAIMoves of
                     Some randomFallbackMove \<Rightarrow> Move randomFallbackMove
                   | None \<Rightarrow> TypeError)
                else Null))"

text \<open>
  \<^verbatim>\<open>GameGlobal.AIEngine.chooseMove\<close>.  \<open>None\<close> would be a call that never returns.
\<close>

definition chooseMove ::
  "('p, 'e, 'm, 'x) engine \<Rightarrow> (nat \<Rightarrow> rat) \<Rightarrow> ('p, 'e) game \<Rightarrow> 'p chosen option" where
  "chooseMove E rnd gameInstance =
     (let aiColor = currentPlayer gameInstance;
          possibleAIMoves = legalMoves E gameInstance aiColor
      in if length possibleAIMoves = 0 then Some Null
         else Option.bind (selectBest E rnd gameInstance)
                (\<lambda>st. Some (resolveMove E rnd gameInstance possibleAIMoves st)))"

text \<open>
  A source of random numbers whose every value passes the test \<^verbatim>\<open>Math.random() < 0.3\<close>
  (a tie always replaces \<^verbatim>\<open>bestMove\<close>), and one whose every value fails it (a tie never
  replaces \<^verbatim>\<open>bestMove\<close>).
\<close>

definition always_replace :: "(nat \<Rightarrow> rat) \<Rightarrow> bool" where
  "always_replace rnd = (\<forall>n. rnd n < double_0_3)"

definition never_replace :: "(nat \<Rightarrow> rat) \<Rightarrow> bool" where
  "never_replace rnd = (\<forall>n. \<not> rnd n < double_0_3)"

section \<open>The same program on a heap of game objects\<close>

text \<open>
  To say which object a statement of ai_player.js changes, the game objects live on a
  heap: a list of objects, an object being named by its index.  Here \<^verbatim>\<open>new
  GameGlobal.Game(...)\<close> allocates a new object at the end of the heap, a method of the
  engine that changes its object, or an assignment to a field, replaces the object at the
  receiver's address, and a method that only answers a question reads the object at the
  receiver's address.  A game object holds its pieces itself: the constructor builds the
  new object from exported data and shares nothing with the object that was exported.
  The functions below are \<^verbatim>\<open>minimax\<close> and \<^verbatim>\<open>chooseMove\<close> once more, statement by
  statement, on addresses; they return the final heap with their result.
\<close>

type_synonym ('p, 'e) heap = "('p, 'e) game list"

text \<open>Allocation of a new object, and a change of the object at an address.\<close>

definition alloc :: "('p, 'e) heap \<Rightarrow> ('p, 'e) game \<Rightarrow> nat \<times> ('p, 'e) heap" where
  "alloc h g = (length h, h @ [g])"

definition update_at ::
  "('p, 'e) heap \<Rightarrow> nat \<Rightarrow> (('p, 'e) game \<Rightarrow> ('p, 'e) game) \<Rightarrow> ('p, 'e) heap" where
  "update_at h a f = h[a := f (h ! a)]"

text \<open>The end of a simulated move, on the object \<^verbatim>\<open>childGameSim\<close>.\<close>

definition finishMove_h ::
  "('p, 'e, 'm, 'x) engine \<Rightarrow> ('p, 'e) heap \<Rightarrow> nat \<Rightarrow> color \<Rightarrow> ('p, 'e) heap" where
  "finishMove_h E h childGameSim player =
     (let promoDetails = checkPawnPromotion E (h ! childGameSim) (currentPiece (h ! childGameSim));
          h = (if needsPromotion promoDetails
               then update_at
                      (update_at h childGameSim (\<lambda>g. g\<lparr>pawnThatReachedEnd := pawn promoDetails\<rparr>))
                      childGameSim (\<lambda>g. finalizePawnPromotion E g ''queen'')
               else h);
          h = update_at h childGameSim (\<lambda>g. g\<lparr>currentPlayer := player\<rparr>)
      in update_at h childGameSim (toggleCurrentPlayer E))"

text \<open>
  The body of the loops of \<^verbatim>\<open>minimax\<close>: the address of the child when the move was made
  (\<open>None\<close> for \<^verbatim>\<open>continue\<close>), and the heap, which holds the new object in both cases.
\<close>

definition simulateMove_h ::
  "('p, 'e, 'm, 'x) engine \<Rightarrow> ('p, 'e) heap \<Rightarrow> nat \<Rightarrow> 'p move \<Rightarrow> color \<Rightarrow>
   nat option \<times> ('p, 'e) heap" where
  "simulateMove_h E h gameInstanceSim move player =
     (case alloc h (new_Game E (export E (h ! gameInstanceSim))) of
        (childGameSim, h) \<Rightarrow>
          (case findPieceByPosition E (h ! childGameSim) (move_from move) of
             None \<Rightarrow> (None, h)
           | Some pieceToMoveInSim \<Rightarrow>
               (let h = update_at h childGameSim (\<lambda>g. g\<lparr>currentPiece := Some pieceToMoveInSim\<rparr>);
                    h = update_at h childGameSim (\<lambda>g. g\<lparr>possibleMoves :=
                          getMoves E g pieceToMoveInSim (generateCurrentMap E g)\<rparr>)
                in case findPieceByPosition E (h ! childGameSim) (move_to move) of
                     Some pieceAtTargetInSim \<Rightarrow>
                       if color pieceAtTargetInSim \<noteq> color pieceToMoveInSim
                       then (Some childGameSim,
                             finishMove_h E
                               (update_at h childGameSim
                                  (\<lambda>g. takeWithSelected E g pieceAtTargetInSim))
                               childGameSim player)
                       else (None, h)
                   | None \<Rightarrow>
                       (Some childGameSim,
                        finishMove_h E
                          (update_at h childGameSim (\<lambda>g. moveSelected E g (move_to move)))
                          childGameSim player))))"

text \<open>\<^verbatim>\<open>minimax\<close> on the object at the address \<^verbatim>\<open>gameInstanceSim\<close>.\<close>

partial_function (option) minimax_h ::
  "('p, 'e, 'm, 'x) engine \<Rightarrow> ('p, 'e) heap \<Rightarrow> nat \<Rightarrow> int \<Rightarrow> bool \<Rightarrow> color \<Rightarrow>
   (score \<times> ('p, 'e) heap) option" where
  "minimax_h E h gameInstanceSim depth isMaximizingPlayer aiPlayerColor =
     (if depth = 0 \<or> isFinished E (h ! gameInstanceSim) then
        (case winner (h ! gameInstanceSim) of
           Some w \<Rightarrow> if w = aiPlayerColor then Some (PosInf, h) else Some (NegInf, h)
         | None \<Rightarrow> Some (Fin (evaluateBoard (h ! gameInstanceSim) aiPlayerColor), h))
      else
        (let player = playerForThisTurn isMaximizingPlayer aiPlayerColor;
             legalMoves = legalMoves E (h ! gameInstanceSim) player
         in if legalMoves = [] then
              (if isCheck E (h ! gameInstanceSim) player
               then (if isMaximizingPlayer then Some (NegInf, h) else Some (PosInf, h))
               else Some (Fin 0, h))
            else if isMaximizingPlayer then
              for_each legalMoves
                (\<lambda>move st.
                   case simulateMove_h E (snd st) gameInstanceSim move player of
                     (None, h) \<Rightarrow> Some (fst st, h)
                   | (Some childGameSim, h) \<Rightarrow>
                       Option.bind (minimax_h E h childGameSim (depth - 1) False aiPlayerColor)
                         (\<lambda>r. Some (max (fst st) (fst r), snd r)))
                (NegInf, h)
            else
              for_each legalMoves
                (\<lambda>move st.
                   case simulateMove_h E (snd st) gameInstanceSim move player of
                     (None, h) \<Rightarrow> Some (fst st, h)
                   | (Some childGameSim, h) \<Rightarrow>
                       Option.bind (minimax_h E h childGameSim (depth - 1) True aiPlayerColor)
                         (\<lambda>r. Some (min (fst st) (fst r), snd r)))
                (PosInf, h)))"


declare minimax_h.simps [code]

text \<open>The loop body, one turn of the loop and \<^verbatim>\<open>chooseMove\<close> itself, on addresses.\<close>

definition simulateRootMove_h ::
  "('p, 'e, 'm, 'x) engine \<Rightarrow> ('p, 'e) heap \<Rightarrow> nat \<Rightarrow> 'p move \<Rightarrow> color \<Rightarrow>
   nat option \<times> ('p, 'e) heap" where
  "simulateRootMove_h E h gameInstance move aiColor =
     (case alloc h (new_Game E (export E (h ! gameInstance))) of
        (gameSim, h) \<Rightarrow>
          (case findPieceByPosition E (h ! gameSim) (move_from move) of
             None \<Rightarrow> (None, h)
           | Some pieceToMoveInSim \<Rightarrow>
               (let h = update_at h gameSim (\<lambda>g. g\<lparr>currentPiece := Some pieceToMoveInSim\<rparr>);
                    h = update_at h gameSim (\<lambda>g. g\<lparr>possibleMoves :=
                          getMoves E g pieceToMoveInSim (generateCurrentMap E g)\<rparr>)
                in case findPieceByPosition E (h ! gameSim) (move_to move) of
                     Some pieceAtTargetInSim \<Rightarrow>
                       if color pieceAtTargetInSim \<noteq> color pieceToMoveInSim
                       then (if canTakeWithSelected E (h ! gameSim) pieceAtTargetInSim
                             then (Some gameSim,
                                   finishMove_h E
                                     (update_at h gameSim
                                        (\<lambda>g. takeWithSelected E g pieceAtTargetInSim))
                                     gameSim aiColor)
                             else (None, h))
                       else (None, h)
                   | None \<Rightarrow>
                       if canMoveSelected E (h ! gameSim) (move_to move)
                       then (Some gameSim,
                             finishMove_h E
                               (update_at h gameSim (\<lambda>g. moveSelected E g (move_to move)))
                               gameSim aiColor)
                       else (None, h))))"

definition rootStep_h ::
  "('p, 'e, 'm, 'x) engine \<Rightarrow> (nat \<Rightarrow> rat) \<Rightarrow> nat \<Rightarrow> color \<Rightarrow> 'p move \<Rightarrow>
   ('p move option \<times> score \<times> nat) \<times> ('p, 'e) heap \<Rightarrow>
   (('p move option \<times> score \<times> nat) \<times> ('p, 'e) heap) option" where
  "rootStep_h E rnd gameInstance aiColor move st =
     (case simulateRootMove_h E (snd st) gameInstance move aiColor of
        (None, h) \<Rightarrow> Some (fst st, h)
      | (Some gameSim, h) \<Rightarrow>
          Option.bind (minimax_h E h gameSim (SEARCH_DEPTH - 1) False aiColor)
            (\<lambda>r. Some (updateBest rnd move (fst st) (fst r), snd r)))"

definition chooseMove_h ::
  "('p, 'e, 'm, 'x) engine \<Rightarrow> (nat \<Rightarrow> rat) \<Rightarrow> ('p, 'e) heap \<Rightarrow> nat \<Rightarrow>
   ('p chosen \<times> ('p, 'e) heap) option" where
  "chooseMove_h E rnd h gameInstance =
     (let aiColor = currentPlayer (h ! gameInstance);
          possibleAIMoves = legalMoves E (h ! gameInstance) aiColor
      in if length possibleAIMoves = 0 then Some (Null, h)
         else Option.bind
                (for_each possibleAIMoves (rootStep_h E rnd gameInstance aiColor)
                   ((None, NegInf, 0), h))
                (\<lambda>r. Some (resolveMove E rnd (snd r ! gameInstance) possibleAIMoves (fst r),
                            snd r)))"

section \<open>A small rules engine\<close>

text \<open>
  A rules engine small enough to run the search by hand: the board is the row of squares
  0 to 7, a piece moves one or two squares up the row onto a square that is empty or holds
  a piece of the other side, and taking a king wins the game.  The engine data of a game
  is a pair: the game-over flag and whether the index used by \<^verbatim>\<open>findPieceByPosition\<close> is
  built (the constructor builds it).
\<close>

type_synonym toy_game = "(nat, bool \<times> bool) game"

definition toy_getMoves :: "toy_game \<Rightarrow> nat piece \<Rightarrow> (nat \<Rightarrow> nat piece option) \<Rightarrow> nat list" where
  "toy_getMoves g p m =
     filter (\<lambda>sq. sq < 8 \<and> (case m sq of None \<Rightarrow> True | Some q \<Rightarrow> color q \<noteq> color p))
       [position p + 1, position p + 2]"

definition toy_relocate :: "toy_game \<Rightarrow> nat piece \<Rightarrow> nat \<Rightarrow> toy_game" where
  "toy_relocate g p sq =
     g\<lparr>pieces := map (\<lambda>r. if r = p then p\<lparr>position := sq\<rparr> else r) (pieces g),
       currentPiece := Some (p\<lparr>position := sq\<rparr>)\<rparr>"

definition toy_take :: "toy_game \<Rightarrow> nat piece \<Rightarrow> toy_game" where
  "toy_take g q =
     (case currentPiece g of
        None \<Rightarrow> g
      | Some p \<Rightarrow>
          toy_relocate
            (g\<lparr>pieces := removeAll q (pieces g),
               winner := (if type q = ''king'' then Some (color p) else winner g)\<rparr>)
            p (position q))"

definition toy_promote :: "toy_game \<Rightarrow> string \<Rightarrow> toy_game" where
  "toy_promote g kind =
     (case pawnThatReachedEnd g of
        None \<Rightarrow> g
      | Some p \<Rightarrow>
          g\<lparr>pieces := map (\<lambda>r. if r = p then p\<lparr>type := kind\<rparr> else r) (pieces g),
            pawnThatReachedEnd := None\<rparr>)"

definition toy_engine ::
  "(nat, bool \<times> bool, nat \<Rightarrow> nat piece option, toy_game) engine" where
  "toy_engine =
     \<lparr>isFinished = (\<lambda>g. fst (internal g) \<or> winner g \<noteq> None),
      isCheck = (\<lambda>g c. list_ex (\<lambda>k. type k = ''king'' \<and> color k = c \<and>
                   list_ex (\<lambda>q. color q \<noteq> c \<and>
                      (position k = position q + 1 \<or> position k = position q + 2)) (pieces g))
                 (pieces g)),
      generateCurrentMap = (\<lambda>g sq. find (\<lambda>p. position p = sq) (pieces g)),
      getMoves = toy_getMoves,
      export = (\<lambda>g. g),
      new_Game = (\<lambda>x. x\<lparr>internal := (fst (internal x), True)\<rparr>),
      findPieceByPosition =
         (\<lambda>g sq. if snd (internal g) then find (\<lambda>p. position p = sq) (pieces g) else None),
      canTakeWithSelected = (\<lambda>g q. position q \<in> set (possibleMoves g)),
      canMoveSelected = (\<lambda>g sq. sq \<in> set (possibleMoves g)),
      takeWithSelected = toy_take,
      moveSelected = (\<lambda>g sq. case currentPiece g of None \<Rightarrow> g | Some p \<Rightarrow> toy_relocate g p sq),
      checkPawnPromotion =
         (\<lambda>g cp. \<lparr>needsPromotion =
                     (case cp of None \<Rightarrow> False | Some p \<Rightarrow> type p = ''pawn'' \<and> position p = 7),
                   pawn = cp\<rparr>),
      finalizePawnPromotion = toy_promote,
      toggleCurrentPlayer = (\<lambda>g. g\<lparr>currentPlayer := opposite (currentPlayer g)\<rparr>)\<rparr>"

text \<open>The same engine with a constructor that does not build the index.\<close>

definition stale_engine ::
  "(nat, bool \<times> bool, nat \<Rightarrow> nat piece option, toy_game) engine" where
  "stale_engine = toy_engine\<lparr>new_Game := (\<lambda>x. x)\<rparr>"

definition toy_position :: "nat piece list \<Rightarrow> color \<Rightarrow> toy_game" where
  "toy_position ps c =
     \<lparr>pieces = ps, currentPlayer = c, winner = None, currentPiece = None,
      possibleMoves = [], pawnThatReachedEnd = None, internal = (False, True)\<rparr>"

definition toy_piece :: "string \<Rightarrow> color \<Rightarrow> nat \<Rightarrow> nat piece" where
  "toy_piece k c sq = \<lparr>type = k, color = c, position = sq\<rparr>"

text \<open>
  White to move with a king that is taken after either of its two moves.
\<close>

definition cornered_king :: toy_game where
  "cornered_king =
     toy_position [toy_piece ''king'' White 2, toy_piece ''rook'' Black 1,
                   toy_piece ''pawn'' Black 3, toy_piece ''king'' Black 6] White"

text \<open>A game that White has won.\<close>

definition won_position :: toy_game where
  "won_position =
     (toy_position [toy_piece ''king'' White 2, toy_piece ''queen'' Black 5] White)
       \<lparr>winner := Some White\<rparr>"

text \<open>A game that is over with no winner, White being a queen up.\<close>

definition drawn_position :: toy_game where
  "drawn_position =
     (toy_position [toy_piece ''king'' White 0, toy_piece ''queen'' White 1,
                    toy_piece ''king'' Black 6] White)
       \<lparr>internal := (True, True)\<rparr>"

text \<open>
  White to move with a king on the last square, which cannot move: attacked by the rook
  in the first position, not attacked in the second.
\<close>

definition mated_position :: toy_game where
  "mated_position =
     toy_position [toy_piece ''king'' White 7, toy_piece ''rook'' Black 5,
                   toy_piece ''king'' Black 0] White"

definition stalemate_position :: toy_game where
  "stalemate_position =
     toy_position [toy_piece ''king'' White 7, toy_piece ''king'' Black 0] White"

text \<open>The first position in a game object whose index is not built.\<close>

definition stale_position :: toy_game where
  "stale_position = cornered_king\<lparr>internal := (False, False)\<rparr>"

text \<open>
  White to move; the rook can take the queen.  The second definition is the same position
  in a game object whose index is not built.
\<close>

definition capture_position :: toy_game where
  "capture_position =
     toy_position [toy_piece ''king'' White 0, toy_piece ''rook'' White 3,
                   toy_piece ''queen'' Black 4, toy_piece ''king'' Black 7] White"


text \<open>The move of the piece \<open>k\<close> of side \<open>c\<close> from square \<open>a\<close> to square \<open>b\<close>.\<close>

definition toy_move :: "string \<Rightarrow> color \<Rightarrow> nat \<Rightarrow> nat \<Rightarrow> nat move" where
  "toy_move k c a b = \<lparr>move_piece = toy_piece k c a, move_from = a, move_to = b\<rparr>"



text \<open>
  The same engine with an enumeration of moves that does not look at what stands on the
  target square, so that it offers moves onto pieces of the mover's side; and a position
  where the first move it offers White is the king onto the white pawn.
\<close>

definition blunt_engine ::
  "(nat, bool \<times> bool, nat \<Rightarrow> nat piece option, toy_game) engine" where
  "blunt_engine =
     toy_engine\<lparr>getMoves := (\<lambda>g p m. filter (\<lambda>sq. sq < 8) [position p + 1, position p + 2])\<rparr>"

definition blocked_position :: toy_game where
  "blocked_position =
     toy_position [toy_piece ''king'' White 2, toy_piece ''pawn'' White 3,
                   toy_piece ''rook'' Black 4, toy_piece ''king'' Black 7] White"

text \<open>
  The same engine on a row with no last square, where a piece moves one square up: two
  kings, the white one ahead of the black one, can move for ever.
\<close>

definition endless_engine ::
  "(nat, bool \<times> bool, nat \<Rightarrow> nat piece option, toy_game) engine" where
  "endless_engine =
     toy_engine\<lparr>getMoves := (\<lambda>g p m.
        filter (\<lambda>sq. case m sq of None \<Rightarrow> True | Some q \<Rightarrow> color q \<noteq> color p)
          [position p + 1])\<rparr>"

definition two_kings :: "toy_game \<Rightarrow> nat \<Rightarrow> nat \<Rightarrow> bool" where
  "two_kings g w b =
     (pieces g = [toy_piece ''king'' White w, toy_piece ''king'' Black b]
      \<and> winner g = None \<and> \<not> fst (internal g))"

definition endless_start :: toy_game where
  "endless_start = toy_position [toy_piece ''king'' White 1, toy_piece ''king'' Black 0] White"

section \<open>Properties of the evaluator\<close>

lemma fold_evaluateBoard_step:
  "fold (evaluateBoard_step c) ps s = s + material ps c - material ps (opposite c)"
proof (induction ps arbitrary: s)
  case Nil
  show ?case by (simp add: material_def)
next
  case (Cons p ps)
  let ?v = "getPieceValue (type p)"
  show ?case
  proof (cases "color p = c")
    case True
    then have "color p \<noteq> opposite c"
      by (cases c) simp_all
    with True have "material (p # ps) c = ?v + material ps c"
      and "material (p # ps) (opposite c) = material ps (opposite c)"
      by (simp_all add: material_def)
    moreover have "evaluateBoard_step c p s = s + ?v"
      using True by (simp add: evaluateBoard_step_def)
    ultimately show ?thesis
      by (simp add: Cons.IH)
  next
    case False
    then have "color p = opposite c"
      by (cases c; cases "color p") simp_all
    with False have "material (p # ps) c = material ps c"
      and "material (p # ps) (opposite c) = ?v + material ps (opposite c)"
      by (simp_all add: material_def)
    moreover have "evaluateBoard_step c p s = s - ?v"
      using False by (simp add: evaluateBoard_step_def)
    ultimately show ?thesis
      by (simp add: Cons.IH)
  qed
qed

lemma opposite_opposite: "opposite (opposite c) = c"
  by (cases c) simp_all

text \<open>
  C5.  \<^verbatim>\<open>evaluateBoard(state, color)\<close> is the material of \<open>color\<close> minus the material of
  the other side, piece values being pawn 100, knight 320, bishop 330, rook 500,
  queen 900, king 20000 and 0 for every other kind; so evaluating for the other side
  negates the result.
\<close>

theorem evaluateBoard_material_difference:
  "evaluateBoard g c = material (pieces g) c - material (pieces g) (opposite c)
   \<and> evaluateBoard g c = - evaluateBoard g (opposite c)
   \<and> getPieceValue k =
       (case map_of [(''pawn'', 100), (''knight'', 320), (''bishop'', 330),
                     (''rook'', 500), (''queen'', 900), (''king'', 20000)] k of
          Some v \<Rightarrow> v
        | None \<Rightarrow> 0)"
proof -
  have diff: "evaluateBoard g c' = material (pieces g) c' - material (pieces g) (opposite c')"
    for c'
    by (simp add: evaluateBoard_def evaluatePieces_def fold_evaluateBoard_step)
  have neg: "evaluateBoard g c = - evaluateBoard g (opposite c)"
    by (simp add: diff [of c] diff [of "opposite c"] opposite_opposite)
  have table: "getPieceValue k =
       (case map_of [(''pawn'', 100), (''knight'', 320), (''bishop'', 330),
                     (''rook'', 500), (''queen'', 900), (''king'', 20000)] k of
          Some v \<Rightarrow> v
        | None \<Rightarrow> 0)"
    by (simp add: getPieceValue_def)
  from diff [of c] neg table show ?thesis
    by blast
qed

section \<open>Properties of the search\<close>

lemma minimax_terminal:
  assumes "depth = 0 \<or> isFinished E g"
  shows "minimax E g depth mx ai =
           Some (case winner g of
                   Some w \<Rightarrow> if w = ai then PosInf else NegInf
                 | None \<Rightarrow> Fin (evaluateBoard g ai))"
  using assms by (subst minimax.simps) (simp split: option.split)

lemma minimax_no_moves:
  assumes "depth \<noteq> 0" and "\<not> isFinished E g"
    and "legalMoves E g (playerForThisTurn mx ai) = []"
  shows "minimax E g depth mx ai =
           Some (if isCheck E g (playerForThisTurn mx ai)
                 then (if mx then NegInf else PosInf) else Fin 0)"
  using assms by (subst minimax.simps) simp

lemma minimax_internal_max:
  assumes "depth \<noteq> 0" and "\<not> isFinished E g"
    and "legalMoves E g (playerForThisTurn True ai) \<noteq> []"
  shows "minimax E g depth True ai =
           for_each (legalMoves E g (playerForThisTurn True ai))
             (\<lambda>move maxEval.
                case simulateMove E g move (playerForThisTurn True ai) of
                  None \<Rightarrow> Some maxEval
                | Some childGameSim \<Rightarrow>
                    Option.bind (minimax E childGameSim (depth - 1) False ai)
                      (\<lambda>evalScore. Some (max maxEval evalScore)))
             NegInf"
  using assms by (subst minimax.simps) (simp add: Let_def)

lemma minimax_internal_min:
  assumes "depth \<noteq> 0" and "\<not> isFinished E g"
    and "legalMoves E g (playerForThisTurn False ai) \<noteq> []"
  shows "minimax E g depth False ai =
           for_each (legalMoves E g (playerForThisTurn False ai))
             (\<lambda>move minEval.
                case simulateMove E g move (playerForThisTurn False ai) of
                  None \<Rightarrow> Some minEval
                | Some childGameSim \<Rightarrow>
                    Option.bind (minimax E childGameSim (depth - 1) True ai)
                      (\<lambda>evalScore. Some (min minEval evalScore)))
             PosInf"
  using assms by (subst minimax.simps) (simp add: Let_def)

lemma for_each_skip_all:
  assumes "\<And>x s. x \<in> set xs \<Longrightarrow> body x s = Some s"
  shows "for_each xs body s = Some s"
  using assms by (induction xs arbitrary: s) simp_all

lemma for_each_total:
  assumes "\<And>x s. x \<in> set xs \<Longrightarrow> \<exists>s'. body x s = Some s'"
  shows "\<exists>s'. for_each xs body s = Some s'"
  using assms
proof (induction xs arbitrary: s)
  case Nil
  show ?case by simp
next
  case (Cons x xs)
  from Cons.prems [of x s] obtain s1 where s1: "body x s = Some s1"
    by auto
  from Cons.IH [of s1] Cons.prems obtain s2 where "for_each xs body s1 = Some s2"
    by auto
  with s1 show ?case by simp
qed

lemma minimax_returns:
  assumes "0 \<le> depth"
  shows "\<exists>v. minimax E g depth mx ai = Some v"
  using assms
proof (induction "nat depth" arbitrary: depth g mx)
  case 0
  then have "depth = 0" by simp
  then show ?case by (simp add: minimax_terminal)
next
  case (Suc n)
  then have pos: "depth \<noteq> 0" and n: "n = nat (depth - 1)" and nonneg: "0 \<le> depth - 1"
    by simp_all
  show ?case
  proof (cases "isFinished E g")
    case True
    then show ?thesis by (simp add: minimax_terminal)
  next
    case False
    show ?thesis
    proof (cases "legalMoves E g (playerForThisTurn mx ai) = []")
      case True
      with pos False show ?thesis by (simp add: minimax_no_moves)
    next
      case nonempty: False
      have rec: "\<exists>v. minimax E child (depth - 1) mx' ai = Some v" for child mx'
        by (rule Suc.hyps(1) [OF n nonneg])
      have step: "\<exists>s'. (case simulateMove E g move pl of
                  None \<Rightarrow> Some acc
                | Some child \<Rightarrow>
                    Option.bind (minimax E child (depth - 1) mx' ai)
                      (\<lambda>v. Some (combine acc v))) = Some s'"
        for move acc pl mx' and combine :: "score \<Rightarrow> score \<Rightarrow> score"
      proof (cases "simulateMove E g move pl")
        case None
        then show ?thesis by simp
      next
        case (Some child)
        from rec [of child mx'] obtain v where "minimax E child (depth - 1) mx' ai = Some v"
          by blast
        with Some show ?thesis by simp
      qed
      show ?thesis
      proof (cases mx)
        case True
        then have mx: "mx = True" by simp
        show ?thesis
          unfolding mx minimax_internal_max [OF pos False nonempty [unfolded mx]]
          by (intro for_each_total step)
      next
        case False
        then have mx: "mx = False" by simp
        show ?thesis
          unfolding mx minimax_internal_min [OF pos \<open>\<not> isFinished E g\<close> nonempty [unfolded mx]]
          by (intro for_each_total step)
      qed
    qed
  qed
qed

lemma for_each_children:
  assumes "list_all2 (\<lambda>c v. f c = Some v) (List.map_filter sim ms) vs"
  shows "for_each ms
           (\<lambda>m acc. case sim m of None \<Rightarrow> Some acc
                     | Some c \<Rightarrow> Option.bind (f c) (\<lambda>v. Some (combine acc v))) a
         = Some (foldl combine a vs)"
  using assms
proof (induction ms arbitrary: a vs)
  case Nil
  then show ?case by (simp add: List.map_filter_simps)
next
  case (Cons m ms)
  show ?case
  proof (cases "sim m")
    case None
    with Cons show ?thesis by (simp add: List.map_filter_simps)
  next
    case (Some c)
    with Cons.prems obtain v vs' where vs: "vs = v # vs'" and v: "f c = Some v"
      and rest: "list_all2 (\<lambda>c v. f c = Some v) (List.map_filter sim ms) vs'"
      by (auto simp add: List.map_filter_simps list_all2_Cons1)
    from Cons.IH [OF rest] Some v vs show ?thesis by simp
  qed
qed

lemma foldl_max_score: "foldl max a vs = Max (set (a # vs))"
proof (induction vs arbitrary: a)
  case Nil
  show ?case by simp
next
  case (Cons v vs)
  show ?case
    using Cons.IH [of "max a v"] by (cases "vs = []") (simp_all add: max.assoc)
qed

lemma foldl_min_score: "foldl min a vs = Min (set (a # vs))"
proof (induction vs arbitrary: a)
  case Nil
  show ?case by simp
next
  case (Cons v vs)
  show ?case
    using Cons.IH [of "min a v"] by (cases "vs = []") (simp_all add: min.assoc)
qed

lemma NegInf_least: "NegInf \<le> (v :: score)"
  by (simp add: less_eq_score_def)

lemma PosInf_greatest: "(v :: score) \<le> PosInf"
  by (cases v) (simp_all add: less_eq_score_def)

lemma Max_NegInf: "vs \<noteq> [] \<Longrightarrow> Max (set (NegInf # vs)) = Max (set vs)"
  by (simp add: NegInf_least max_absorb2)

lemma Min_PosInf: "vs \<noteq> [] \<Longrightarrow> Min (set (PosInf # vs)) = Min (set vs)"
  by (simp add: PosInf_greatest min_absorb2)

text \<open>
  The loop body of \<^verbatim>\<open>minimax\<close> skips a move exactly when its simulation faults as
  described, and otherwise passes the described child to the recursive call.
\<close>

lemma simulateMove_spec:
  "simulateMove E g move pl =
     (if spec_faults E g move then None else Some (spec_child E g move pl))"
  by (simp add: simulateMove_def finishMove_def spec_faults_def spec_origin_missing_def
      spec_target_same_color_def spec_child_def spec_select_def spec_clone_def Let_def
      split: option.split)

lemma map_filter_spec:
  "List.map_filter (\<lambda>move. simulateMove E g move pl) ms =
     map (\<lambda>move. spec_child E g move pl) (filter (\<lambda>move. \<not> spec_faults E g move) ms)"
  by (induction ms) (simp_all add: List.map_filter_simps simulateMove_spec)

text \<open>
  C1.  At a node with an undecided outcome, a depth greater than 0 and at least one legal
  move for the side to move, \<^verbatim>\<open>minimax\<close> returns the maximum (when maximizing) or the
  minimum (otherwise) of the values that \<^verbatim>\<open>minimax\<close> returns, at depth - 1 and with the
  flag flipped, on the child states.  There is one child per legal move that does not
  fault, in the order of the moves: the state made by applying the move to a fresh copy
  of the node's state.  A move faults when no piece is at its origin in the copy or a
  piece of the same side is on its target square; it gives no child and no value, and the
  moves after it are still tried.  (With no child at all the result is the initial
  accumulator.)
\<close>

theorem minimax_internal_node:
  assumes "\<not> isFinished E state" and "0 < depth"
    and "legalMoves E state (playerForThisTurn maximizing aiColor) \<noteq> []"
  shows "\<exists>vs. list_all2
                 (\<lambda>move v.
                    minimax E (spec_child E state move (playerForThisTurn maximizing aiColor))
                      (depth - 1) (\<not> maximizing) aiColor = Some v)
                 (filter (\<lambda>move. \<not> spec_faults E state move)
                    (legalMoves E state (playerForThisTurn maximizing aiColor)))
                 vs
              \<and> minimax E state depth maximizing aiColor =
                  Some (if maximizing
                        then (if vs = [] then NegInf else Max (set vs))
                        else (if vs = [] then PosInf else Min (set vs)))"
proof -
  let ?pl = "playerForThisTurn maximizing aiColor"
  let ?f = "\<lambda>child. minimax E child (depth - 1) (\<not> maximizing) aiColor"
  let ?ms = "filter (\<lambda>move. \<not> spec_faults E state move) (legalMoves E state ?pl)"
  let ?cs = "List.map_filter (\<lambda>move. simulateMove E state move ?pl) (legalMoves E state ?pl)"
  have cs: "?cs = map (\<lambda>move. spec_child E state move ?pl) ?ms"
    by (rule map_filter_spec)
  define vs where "vs = map (\<lambda>c. the (?f c)) ?cs"
  have "?f c = Some (the (?f c))" for c
    using minimax_returns [of "depth - 1" E c "\<not> maximizing" aiColor] assms(2) by auto
  then have all2: "list_all2 (\<lambda>child v. ?f child = Some v) ?cs vs"
    unfolding vs_def by (simp add: list_all2_conv_all_nth)
  then have moves: "list_all2 (\<lambda>move v. ?f (spec_child E state move ?pl) = Some v) ?ms vs"
    unfolding cs by (simp add: list_all2_map1)
  from assms(2) have nz: "depth \<noteq> 0" by simp
  show ?thesis
  proof (cases maximizing)
    case True
    then have mx: "maximizing = True" by simp
    from all2 have "list_all2 (\<lambda>child v. minimax E child (depth - 1) False aiColor = Some v)
        (List.map_filter (\<lambda>move. simulateMove E state move (playerForThisTurn True aiColor))
           (legalMoves E state (playerForThisTurn True aiColor))) vs"
      by (simp add: mx)
    then have "minimax E state depth True aiColor = Some (foldl max NegInf vs)"
      unfolding minimax_internal_max [OF nz assms(1) assms(3) [unfolded mx]]
      by (rule for_each_children)
    then have "minimax E state depth True aiColor =
                 Some (if vs = [] then NegInf else Max (set vs))"
      using foldl_max_score [of NegInf vs] Max_NegInf [of vs] by (cases "vs = []") simp_all
    with moves show ?thesis
      unfolding mx by auto
  next
    case False
    then have mx: "maximizing = False" by simp
    from all2 have "list_all2 (\<lambda>child v. minimax E child (depth - 1) True aiColor = Some v)
        (List.map_filter (\<lambda>move. simulateMove E state move (playerForThisTurn False aiColor))
           (legalMoves E state (playerForThisTurn False aiColor))) vs"
      by (simp add: mx)
    then have "minimax E state depth False aiColor = Some (foldl min PosInf vs)"
      unfolding minimax_internal_min [OF nz assms(1) assms(3) [unfolded mx]]
      by (rule for_each_children)
    then have "minimax E state depth False aiColor =
                 Some (if vs = [] then PosInf else Min (set vs))"
      using foldl_min_score [of PosInf vs] Min_PosInf [of vs] by (cases "vs = []") simp_all
    with moves show ?thesis
      unfolding mx by auto
  qed
qed


theorem minimax_internal_node_witness:
  "\<not> isFinished toy_engine cornered_king \<and> (0::int) < 1
   \<and> legalMoves toy_engine cornered_king (playerForThisTurn True White)
        = [toy_move ''king'' White 2 3, toy_move ''king'' White 2 4]
   \<and> map (spec_faults toy_engine cornered_king)
         (legalMoves toy_engine cornered_king (playerForThisTurn True White)) = [False, False]
   \<and> minimax toy_engine
         (spec_child toy_engine cornered_king (toy_move ''king'' White 2 3) White) 0 False White
        = Some (Fin (- 500))
   \<and> minimax toy_engine
         (spec_child toy_engine cornered_king (toy_move ''king'' White 2 4) White) 0 False White
        = Some (Fin (- 600))
   \<and> minimax toy_engine cornered_king 1 True White = Some (Fin (- 500))
   \<and> \<not> isFinished blunt_engine blocked_position
   \<and> legalMoves blunt_engine blocked_position (playerForThisTurn True White)
        = [toy_move ''king'' White 2 3, toy_move ''king'' White 2 4,
           toy_move ''pawn'' White 3 4, toy_move ''pawn'' White 3 5]
   \<and> map (spec_faults blunt_engine blocked_position)
         (legalMoves blunt_engine blocked_position (playerForThisTurn True White))
        = [True, False, False, False]
   \<and> spec_target_same_color blunt_engine blocked_position (toy_move ''king'' White 2 3)
   \<and> map (\<lambda>move. minimax blunt_engine (spec_child blunt_engine blocked_position move White)
                      0 False White)
         [toy_move ''king'' White 2 4, toy_move ''pawn'' White 3 4, toy_move ''pawn'' White 3 5]
        = [Some (Fin 100), Some (Fin 100), Some (Fin (- 400))]
   \<and> minimax blunt_engine blocked_position 1 True White = Some (Fin 100)
   \<and> minimax blunt_engine blocked_position 1 False White = Some (Fin (- 400))"
proof -
  let ?k3 = "toy_move ''king'' White 2 3" and ?k4 = "toy_move ''king'' White 2 4"
  let ?p4 = "toy_move ''pawn'' White 3 4" and ?p5 = "toy_move ''pawn'' White 3 5"
  let ?r5 = "toy_move ''rook'' Black 4 5" and ?r6 = "toy_move ''rook'' Black 4 6"
  have d: "(0::int) < 1" by simp
  have pw: "playerForThisTurn True White = White" and pb: "playerForThisTurn False White = Black"
    by (simp_all add: playerForThisTurn_def)
  \<comment> \<open>the node with two moves, none faulting\<close>
  have a1: "\<not> isFinished toy_engine cornered_king"
    by code_simp
  have a2: "legalMoves toy_engine cornered_king White = [?k3, ?k4]"
    by code_simp
  have a3: "map (spec_faults toy_engine cornered_king) [?k3, ?k4] = [False, False]"
    by code_simp
  have a4: "minimax toy_engine (spec_child toy_engine cornered_king ?k3 White) 0 False White
              = Some (Fin (- 500))"
    by code_simp
  have a5: "minimax toy_engine (spec_child toy_engine cornered_king ?k4 White) 0 False White
              = Some (Fin (- 600))"
    by code_simp
  from a3 have a6: "filter (\<lambda>move. \<not> spec_faults toy_engine cornered_king move) [?k3, ?k4]
                      = [?k3, ?k4]"
    by simp
  from minimax_internal_node [of toy_engine cornered_king 1 True White, OF a1 d]
  obtain vs where
    v1: "list_all2
           (\<lambda>move v. minimax toy_engine (spec_child toy_engine cornered_king move White)
                         0 False White = Some v)
           [?k3, ?k4] vs"
    and r1: "minimax toy_engine cornered_king 1 True White
               = Some (if vs = [] then NegInf else Max (set vs))"
    by (auto simp add: pw a2 a6 simp del: filter.simps)
  from v1 a4 a5 have "vs = [Fin (- 500), Fin (- 600)]"
    by (auto simp add: list_all2_Cons1)
  with r1 have A: "minimax toy_engine cornered_king 1 True White = Some (Fin (- 500))"
    by (simp add: less_eq_score_def max_def)
  \<comment> \<open>the node whose first move faults, maximizing\<close>
  have b1: "\<not> isFinished blunt_engine blocked_position"
    by code_simp
  have b2: "legalMoves blunt_engine blocked_position White = [?k3, ?k4, ?p4, ?p5]"
    by code_simp
  have b3: "map (spec_faults blunt_engine blocked_position) [?k3, ?k4, ?p4, ?p5]
              = [True, False, False, False]"
    by code_simp
  have b4: "spec_target_same_color blunt_engine blocked_position ?k3"
    by code_simp
  have b5: "map (\<lambda>move. minimax blunt_engine (spec_child blunt_engine blocked_position move White)
                      0 False White) [?k4, ?p4, ?p5]
              = [Some (Fin 100), Some (Fin 100), Some (Fin (- 400))]"
    by code_simp
  from b3 have b6: "filter (\<lambda>move. \<not> spec_faults blunt_engine blocked_position move)
                      [?k3, ?k4, ?p4, ?p5] = [?k4, ?p4, ?p5]"
    by simp
  from minimax_internal_node [of blunt_engine blocked_position 1 True White, OF b1 d]
  obtain ws where
    v2: "list_all2
           (\<lambda>move v. minimax blunt_engine (spec_child blunt_engine blocked_position move White)
                         0 False White = Some v)
           [?k4, ?p4, ?p5] ws"
    and r2: "minimax blunt_engine blocked_position 1 True White
               = Some (if ws = [] then NegInf else Max (set ws))"
    by (auto simp add: pw b2 b6 simp del: filter.simps)
  from v2 b5 have "ws = [Fin 100, Fin 100, Fin (- 400)]"
    by (auto simp add: list_all2_Cons1)
  with r2 have B: "minimax blunt_engine blocked_position 1 True White = Some (Fin 100)"
    by (simp add: less_eq_score_def max_def)
  \<comment> \<open>the same node, minimizing\<close>
  have c2: "legalMoves blunt_engine blocked_position Black = [?r5, ?r6]"
    by code_simp
  have c3: "map (spec_faults blunt_engine blocked_position) [?r5, ?r6] = [False, False]"
    by code_simp
  have c5: "map (\<lambda>move. minimax blunt_engine (spec_child blunt_engine blocked_position move Black)
                      0 True White) [?r5, ?r6]
              = [Some (Fin (- 400)), Some (Fin (- 400))]"
    by code_simp
  from c3 have c6: "filter (\<lambda>move. \<not> spec_faults blunt_engine blocked_position move) [?r5, ?r6]
                      = [?r5, ?r6]"
    by simp
  from minimax_internal_node [of blunt_engine blocked_position 1 False White, OF b1 d]
  obtain us where
    v3: "list_all2
           (\<lambda>move v. minimax blunt_engine (spec_child blunt_engine blocked_position move Black)
                         0 True White = Some v)
           [?r5, ?r6] us"
    and r3: "minimax blunt_engine blocked_position 1 False White
               = Some (if us = [] then PosInf else Min (set us))"
    by (auto simp add: pb c2 c6 simp del: filter.simps)
  from v3 c5 have "us = [Fin (- 400), Fin (- 400)]"
    by (auto simp add: list_all2_Cons1)
  with r3 have C: "minimax blunt_engine blocked_position 1 False White = Some (Fin (- 400))"
    by simp
  from a1 d a2 a3 a4 a5 A b1 b2 b3 b4 b5 B C show ?thesis
    by (simp only: pw pb) simp
qed

text \<open>
  C2.  At a node where \<^verbatim>\<open>depth\<close> is 0 or the game is finished, and the game has a winner,
  \<^verbatim>\<open>minimax\<close> returns \<^verbatim>\<open>Infinity\<close> when the winner is \<^verbatim>\<open>aiPlayerColor\<close> and \<^verbatim>\<open>-Infinity\<close>
  when it is the other side, whatever pieces are on the board.
\<close>

theorem minimax_decided:
  assumes "depth = 0 \<or> isFinished E state" and "winner state = Some w"
  shows "minimax E state depth maximizing aiColor =
           Some (if w = aiColor then PosInf else NegInf)"
  using assms by (simp add: minimax_terminal)

theorem minimax_decided_witness:
  "((0::int) = 0 \<or> isFinished toy_engine won_position) \<and> winner won_position = Some White
   \<and> minimax toy_engine won_position 0 True White = Some PosInf
   \<and> minimax toy_engine won_position 0 False Black = Some NegInf
   \<and> minimax toy_engine won_position 3 False Black = Some NegInf"
proof -
  have w: "winner won_position = Some White"
    by code_simp
  have f: "isFinished toy_engine won_position"
    by code_simp
  from minimax_decided [of 0 toy_engine won_position White True White]
    minimax_decided [of 0 toy_engine won_position White False Black]
    minimax_decided [of 3 toy_engine won_position White False Black] w f
  show ?thesis
    by simp
qed

text \<open>
  C3.  At a node with a depth greater than 0 and an undecided outcome where the side to
  move has no legal move: if that side is in check, \<^verbatim>\<open>minimax\<close> returns \<^verbatim>\<open>-Infinity\<close> when
  it is the maximizing side and \<^verbatim>\<open>Infinity\<close> when it is the minimizing side; if it is not
  in check, \<^verbatim>\<open>minimax\<close> returns 0.
\<close>

theorem minimax_no_legal_moves:
  assumes "0 < depth" and "\<not> isFinished E state"
    and "legalMoves E state (playerForThisTurn maximizing aiColor) = []"
  shows "minimax E state depth maximizing aiColor =
           Some (if isCheck E state (playerForThisTurn maximizing aiColor)
                 then (if maximizing then NegInf else PosInf)
                 else Fin 0)"
  using assms by (simp add: minimax_no_moves)

theorem minimax_no_legal_moves_witness:
  "(0::int) < 1 \<and> \<not> isFinished toy_engine mated_position
   \<and> legalMoves toy_engine mated_position (playerForThisTurn True White) = []
   \<and> isCheck toy_engine mated_position (playerForThisTurn True White)
   \<and> minimax toy_engine mated_position 1 True White = Some NegInf
   \<and> minimax toy_engine mated_position 1 False Black = Some PosInf
   \<and> \<not> isFinished toy_engine stalemate_position
   \<and> legalMoves toy_engine stalemate_position (playerForThisTurn True White) = []
   \<and> \<not> isCheck toy_engine stalemate_position (playerForThisTurn True White)
   \<and> minimax toy_engine stalemate_position 1 True White = Some (Fin 0)"
proof -
  have m1: "\<not> isFinished toy_engine mated_position"
    by code_simp
  have m2: "legalMoves toy_engine mated_position (playerForThisTurn True White) = []"
    by code_simp
  have m2': "legalMoves toy_engine mated_position (playerForThisTurn False Black) = []"
    by code_simp
  have m3: "isCheck toy_engine mated_position (playerForThisTurn True White)"
    by code_simp
  have m3': "isCheck toy_engine mated_position (playerForThisTurn False Black)"
    by code_simp
  have s1: "\<not> isFinished toy_engine stalemate_position"
    by code_simp
  have s2: "legalMoves toy_engine stalemate_position (playerForThisTurn True White) = []"
    by code_simp
  have s3: "\<not> isCheck toy_engine stalemate_position (playerForThisTurn True White)"
    by code_simp
  have d: "(0::int) < 1"
    by simp
  from minimax_no_legal_moves [OF d m1 m2] minimax_no_legal_moves [OF d m1 m2']
    minimax_no_legal_moves [OF d s1 s2] m1 m2 m3 m3' s1 s2 s3
  show ?thesis
    by simp
qed

text \<open>
  C4, as the claim states it, fails: a game that is finished with no winner is not scored
  0.  In the position below White is a queen up and the node is scored 900.
\<close>

theorem minimax_drawn_counterexample:
  "isFinished toy_engine drawn_position \<and> winner drawn_position = None
   \<and> minimax toy_engine drawn_position 1 True White = Some (Fin 900)
   \<and> minimax toy_engine drawn_position 1 True White \<noteq> Some (Fin 0)"
  by code_simp

text \<open>
  C4, amended.  At a node whose game is finished with no winner, \<^verbatim>\<open>minimax\<close> returns the
  static evaluation \<^verbatim>\<open>evaluateBoard(state, aiPlayerColor)\<close>, the material of
  \<^verbatim>\<open>aiPlayerColor\<close> minus the material of the other side, for any depth and either side.
\<close>

theorem minimax_finished_without_winner:
  assumes "isFinished E state" and "winner state = None"
  shows "minimax E state depth maximizing aiColor =
           Some (Fin (material (pieces state) aiColor
                      - material (pieces state) (opposite aiColor)))"
  using assms
  by (simp add: minimax_terminal evaluateBoard_def evaluatePieces_def fold_evaluateBoard_step)

theorem minimax_finished_without_winner_witness:
  "isFinished toy_engine drawn_position \<and> winner drawn_position = None
   \<and> minimax toy_engine drawn_position 2 False Black =
       Some (Fin (material (pieces drawn_position) Black
                  - material (pieces drawn_position) (opposite Black)))
   \<and> material (pieces drawn_position) Black
       - material (pieces drawn_position) (opposite Black) = - 900"
proof -
  have f: "isFinished toy_engine drawn_position"
    by code_simp
  have w: "winner drawn_position = None"
    by code_simp
  have v: "material (pieces drawn_position) Black
       - material (pieces drawn_position) (opposite Black) = - 900"
    by code_simp
  from minimax_finished_without_winner [OF f w, of 2 False Black] f w v show ?thesis
    by blast
qed

text \<open>
  The depth matters: with a negative depth the test \<^verbatim>\<open>depth === 0\<close> never succeeds, and
  on a game that goes on for ever \<^verbatim>\<open>minimax\<close> does not return.
\<close>

lemma endless_not_finished: "two_kings g w b \<Longrightarrow> \<not> isFinished endless_engine g"
  by (simp add: two_kings_def endless_engine_def toy_engine_def)

lemma endless_white_move:
  assumes "two_kings g w b" and "b < w"
  shows "legalMoves endless_engine g White = [toy_move ''king'' White w (w + 1)]"
    and "\<exists>c. simulateMove endless_engine g (toy_move ''king'' White w (w + 1)) White = Some c
             \<and> two_kings c (w + 1) b"
  using assms
  by (simp_all add: two_kings_def endless_engine_def toy_engine_def legalMoves_def
      simulateMove_def finishMove_def toy_move_def toy_piece_def toy_relocate_def Let_def)

lemma endless_black_move:
  assumes "two_kings g w b" and "b + 1 < w"
  shows "legalMoves endless_engine g Black = [toy_move ''king'' Black b (b + 1)]"
    and "\<exists>c. simulateMove endless_engine g (toy_move ''king'' Black b (b + 1)) Black = Some c
             \<and> two_kings c w (b + 1)"
  using assms
  by (simp_all add: two_kings_def endless_engine_def toy_engine_def legalMoves_def
      simulateMove_def finishMove_def toy_move_def toy_piece_def toy_relocate_def Let_def)


lemma minimax_endless:
  assumes "minimax E g d mx ai = Some y"
  shows "\<not> (E = endless_engine \<and> ai = White \<and> d < 0
            \<and> (\<exists>w b. two_kings g w b \<and> (if mx then b < w else b + 1 < w)))"
proof (rule minimax.raw_induct
    [where P = "\<lambda>E g d mx ai y. \<not> (E = endless_engine \<and> ai = White \<and> d < 0
            \<and> (\<exists>w b. two_kings g w b \<and> (if mx then b < w else b + 1 < w)))",
      OF _ assms], goal_cases)
  case (1 f E g d mx ai y)
  show ?case
  proof (rule notI, elim conjE exE)
    fix w b
    assume E: "E = endless_engine" and ai: "ai = White" and d: "d < 0"
      and g: "two_kings g w b" and wb: "if mx then b < w else b + 1 < w"
    from d have nz: "d \<noteq> 0" by simp
    from g have nf: "\<not> isFinished endless_engine g" by (rule endless_not_finished)
    show False
    proof (cases mx)
      case True
      with wb have lt: "b < w" by simp
      from endless_white_move [OF g lt] obtain c
        where ms: "legalMoves endless_engine g White = [toy_move ''king'' White w (w + 1)]"
          and c: "simulateMove endless_engine g (toy_move ''king'' White w (w + 1)) White = Some c"
            "two_kings c (w + 1) b"
        by blast
      from 1(2) E ai nz nf True ms c(1)
      obtain v where "f endless_engine c (d - 1) False White = Some v"
        by (auto simp add: playerForThisTurn_def Let_def split: Option.bind_splits)
      from 1(1) [OF this] d c(2) lt show False by auto
    next
      case False
      with wb have lt: "b + 1 < w" by simp
      from endless_black_move [OF g lt] obtain c
        where ms: "legalMoves endless_engine g Black = [toy_move ''king'' Black b (b + 1)]"
          and c: "simulateMove endless_engine g (toy_move ''king'' Black b (b + 1)) Black = Some c"
            "two_kings c w (b + 1)"
        by blast
      from 1(2) E ai nz nf False ms c(1)
      obtain v where "f endless_engine c (d - 1) True White = Some v"
        by (auto simp add: playerForThisTurn_def Let_def split: Option.bind_splits)
      from 1(1) [OF this] d c(2) lt show False by auto
    qed
  qed
qed

lemma minimax_negative_depth_diverges:
  "minimax endless_engine endless_start (- 1) True White = None"
proof (cases "minimax endless_engine endless_start (- 1) True White")
  case None
  then show ?thesis .
next
  case (Some y)
  have "two_kings endless_start 1 0"
    by (simp add: two_kings_def endless_start_def toy_position_def)
  with minimax_endless [OF Some] show ?thesis by auto
qed

text \<open>
  C9.  Every recursive call of \<^verbatim>\<open>minimax\<close> is made with \<^verbatim>\<open>depth - 1\<close>, so a call with a
  depth of at least 0 returns: the recursion stops when the depth is 0, or earlier at a
  finished game or at a node with no legal move.
\<close>

theorem minimax_terminates:
  assumes "0 \<le> depth"
  shows "\<exists>v. minimax E state depth maximizing aiColor = Some v"
  using assms by (rule minimax_returns)

theorem minimax_terminates_witness:
  "(0::int) \<le> 2 \<and> (\<exists>v. minimax toy_engine cornered_king 2 True White = Some v)"
  using minimax_terminates [of 2 toy_engine cornered_king True White] by simp

text \<open>
  C10.  At a node with a depth greater than 0, a game that is not finished and at least
  one legal move, where the simulation of every move faults, \<^verbatim>\<open>minimax\<close> returns the
  initial accumulator: \<^verbatim>\<open>-Infinity\<close> when maximizing, \<^verbatim>\<open>Infinity\<close> when minimizing, the
  values that also mark a lost and a won game.
\<close>

theorem minimax_all_branches_skipped:
  assumes "0 < depth" and "\<not> isFinished E state"
    and "legalMoves E state (playerForThisTurn maximizing aiColor) \<noteq> []"
    and "\<forall>move \<in> set (legalMoves E state (playerForThisTurn maximizing aiColor)).
           simulateMove E state move (playerForThisTurn maximizing aiColor) = None"
  shows "minimax E state depth maximizing aiColor =
           Some (if maximizing then NegInf else PosInf)"
proof (cases maximizing)
  case True
  then have mx: "maximizing = True" by simp
  from assms(1) have nz: "depth \<noteq> 0" by simp
  have "minimax E state depth True aiColor = Some NegInf"
    unfolding minimax_internal_max [OF nz assms(2) assms(3) [unfolded mx]]
    by (rule for_each_skip_all) (use assms(4) [unfolded mx] in simp)
  then show ?thesis
    by (simp add: mx)
next
  case False
  then have mx: "maximizing = False" by simp
  from assms(1) have nz: "depth \<noteq> 0" by simp
  have "minimax E state depth False aiColor = Some PosInf"
    unfolding minimax_internal_min [OF nz assms(2) assms(3) [unfolded mx]]
    by (rule for_each_skip_all) (use assms(4) [unfolded mx] in simp)
  then show ?thesis
    by (simp add: mx)
qed

theorem minimax_all_branches_skipped_witness:
  "(0::int) < 1 \<and> \<not> isFinished stale_engine stale_position
   \<and> legalMoves stale_engine stale_position (playerForThisTurn True White) \<noteq> []
   \<and> map (\<lambda>move. simulateMove stale_engine stale_position move (playerForThisTurn True White))
         (legalMoves stale_engine stale_position (playerForThisTurn True White)) = [None, None]
   \<and> minimax stale_engine stale_position 1 True White = Some NegInf"
proof -
  have h1: "(0::int) < 1"
    by simp
  have h2: "\<not> isFinished stale_engine stale_position"
    by code_simp
  have h3: "legalMoves stale_engine stale_position (playerForThisTurn True White) \<noteq> []"
    by code_simp
  have h4: "\<forall>move \<in> set (legalMoves stale_engine stale_position (playerForThisTurn True White)).
         simulateMove stale_engine stale_position move (playerForThisTurn True White) = None"
    by code_simp
  have h5: "map (\<lambda>move. simulateMove stale_engine stale_position move (playerForThisTurn True White))
         (legalMoves stale_engine stale_position (playerForThisTurn True White)) = [None, None]"
    by code_simp
  from minimax_all_branches_skipped [OF h1 h2 h3 h4] h1 h2 h3 h5 show ?thesis
    by simp
qed

section \<open>Properties of the move selection\<close>

lemma selectBest_moves:
  assumes "selectBest E rnd g = Some (Some m, s, n)"
  shows "legalMoves E g (currentPlayer g) \<noteq> []"
proof
  assume "legalMoves E g (currentPlayer g) = []"
  then have "selectBest E rnd g = Some (None, NegInf, 0)"
    by (simp add: selectBest_def)
  with assms show False by simp
qed

lemma chooseMove_resolve:
  assumes "legalMoves E g (currentPlayer g) \<noteq> []" and "selectBest E rnd g = Some st"
  shows "chooseMove E rnd g = Some (resolveMove E rnd g (legalMoves E g (currentPlayer g)) st)"
  using assms by (simp add: chooseMove_def Let_def)

text \<open>
  The rounding at work: 0.6666666666666666 * 3 is 2 and 0.8333333333333333 * 6 is 5 where
  the exact products are below; 0.375 * 2 is exact; the literal 0.1; and 0.1 + 0.2, which
  is 0.30000000000000004.
\<close>

lemma round_double_examples:
  "round_double (6004799503160661 / 9007199254740992 * 3) = 2"
  "round_double (7505999378950826 / 9007199254740992 * 6) = 5"
  "\<lfloor>6004799503160661 / 9007199254740992 * 3 :: rat\<rfloor> = 1"
  "round_double (3 / 8 * 2) = 3 / 4"
  "round_double (1 / 10) = 3602879701896397 / 36028797018963968"
  "round_double (3602879701896397 / 36028797018963968 + 3602879701896397 / 18014398509481984)
     = 5404319552844596 / 18014398509481984"
  by code_simp+

lemma double_0_3_value: "double_0_3 = 5404319552844595 / 18014398509481984"
  by code_simp

lemma double_0_3_below: "double_0_3 < 3 / 10"
  by (simp add: double_0_3_value)




lemma rootStep_decisions:
  assumes "\<And>n. (rnd1 n < double_0_3) = (rnd2 n < double_0_3)"
  shows "rootStep E rnd1 g c = rootStep E rnd2 g c"
  unfolding rootStep_def updateBest_def assms by (rule refl)

lemma selectBest_decisions:
  assumes "\<And>n. (rnd1 n < double_0_3) = (rnd2 n < double_0_3)"
  shows "selectBest E rnd1 g = selectBest E rnd2 g"
  by (simp add: selectBest_def rootStep_decisions [OF assms])

lemma resolveMove_found:
  assumes "findPieceByPosition E g (move_from m) = Some p"
  shows "resolveMove E rnd g ms (Some m, s, n) =
           Move \<lparr>move_piece = p, move_from = move_from m, move_to = move_to m\<rparr>"
  using assms by (simp add: resolveMove_def)

text \<open>
  A stub of \<^verbatim>\<open>Math.random\<close> that returns the double 0.3 never replaces, since the test is
  \<^verbatim>\<open>0.3 < 0.3\<close>; in the position below it picks the first move.
\<close>

lemma chooseMove_stub_double_0_3:
  "never_replace (\<lambda>n. double_0_3)"
  "chooseMove toy_engine (\<lambda>n. double_0_3) cornered_king
     = Some (Move (toy_move ''king'' White 2 3))"
  by (simp add: never_replace_def, code_simp)

text \<open>
  C7, as the claim states it, fails.  In the position below each of the two moves of the
  white king is scored \<^verbatim>\<open>-Infinity\<close>, so with a tie-break that never replaces, \<^verbatim>\<open>bestMove\<close>
  is still \<^verbatim>\<open>null\<close> after the loop and the move is picked by \<^verbatim>\<open>Math.floor(Math.random() *
  possibleAIMoves.length)\<close>.  Two runs whose random numbers both never replace, the double
  0.375 in one and the double 0.75 in the other, return different moves.
\<close>

theorem chooseMove_never_replace_counterexample:
  "never_replace (\<lambda>n. 3 / 8) \<and> never_replace (\<lambda>n. 3 / 4)
   \<and> chooseMove toy_engine (\<lambda>n. 3 / 8) cornered_king = Some (Move (toy_move ''king'' White 2 3))
   \<and> chooseMove toy_engine (\<lambda>n. 3 / 4) cornered_king = Some (Move (toy_move ''king'' White 2 4))
   \<and> chooseMove toy_engine (\<lambda>n. 3 / 8) cornered_king
        \<noteq> chooseMove toy_engine (\<lambda>n. 3 / 4) cornered_king"
proof -
  have n1: "never_replace (\<lambda>n. 3 / 8)" and n2: "never_replace (\<lambda>n. 3 / 4)"
    by (simp_all add: never_replace_def double_0_3_value)
  have c1: "chooseMove toy_engine (\<lambda>n. 3 / 8) cornered_king
              = Some (Move (toy_move ''king'' White 2 3))"
    by code_simp
  have c2: "chooseMove toy_engine (\<lambda>n. 3 / 4) cornered_king
              = Some (Move (toy_move ''king'' White 2 4))"
    by code_simp
  have "toy_move ''king'' White 2 3 \<noteq> toy_move ''king'' White 2 4"
    by code_simp
  with n1 n2 c1 c2 show ?thesis by simp
qed

text \<open>
  C7, amended.  For a fixed position and the fixed search depth, two runs of \<^verbatim>\<open>chooseMove\<close>
  whose random numbers both always replace (every value below the double 0.3), or both
  never replace, return the same move whenever the loop selects a best move and its piece
  is found again in the original state, that is, whenever no random fallback is taken.
\<close>

theorem chooseMove_deterministic_when_resolved:
  assumes "(always_replace rnd1 \<and> always_replace rnd2)
           \<or> (never_replace rnd1 \<and> never_replace rnd2)"
    and "selectBest E rnd1 g = Some (Some m, s, n)"
    and "findPieceByPosition E g (move_from m) = Some p"
  shows "chooseMove E rnd1 g = chooseMove E rnd2 g"
proof -
  from assms(1) have dec: "(rnd1 n < double_0_3) = (rnd2 n < double_0_3)" for n
    by (auto simp add: always_replace_def never_replace_def)
  from assms(2) have ne: "legalMoves E g (currentPlayer g) \<noteq> []"
    by (rule selectBest_moves)
  from assms(2) selectBest_decisions [of rnd1 rnd2 E g] dec
  have sel2: "selectBest E rnd2 g = Some (Some m, s, n)" by simp
  show ?thesis
    by (simp add: chooseMove_resolve [OF ne assms(2)] chooseMove_resolve [OF ne sel2]
        resolveMove_found [OF assms(3)])
qed

text \<open>
  Two runs that always replace, with the doubles 0 and 0.25, and two runs that never
  replace, with the double 0.3 and the double 0.75.
\<close>

theorem chooseMove_deterministic_when_resolved_witness:
  "((always_replace (\<lambda>n. 0) \<and> always_replace (\<lambda>n. 1 / 4))
      \<or> (never_replace (\<lambda>n. 0) \<and> never_replace (\<lambda>n. 1 / 4)))
   \<and> selectBest toy_engine (\<lambda>n. 0) capture_position
        = Some (Some (toy_move ''rook'' White 3 4), Fin 0, 1)
   \<and> findPieceByPosition toy_engine capture_position (move_from (toy_move ''rook'' White 3 4))
        = Some (toy_piece ''rook'' White 3)
   \<and> chooseMove toy_engine (\<lambda>n. 0) capture_position
        = chooseMove toy_engine (\<lambda>n. 1 / 4) capture_position
   \<and> chooseMove toy_engine (\<lambda>n. 1 / 4) capture_position
        = Some (Move (toy_move ''rook'' White 3 4))
   \<and> ((always_replace (\<lambda>n. double_0_3) \<and> always_replace (\<lambda>n. 3 / 4))
      \<or> (never_replace (\<lambda>n. double_0_3) \<and> never_replace (\<lambda>n. 3 / 4)))
   \<and> selectBest toy_engine (\<lambda>n. double_0_3) capture_position
        = Some (Some (toy_move ''rook'' White 3 4), Fin 0, 1)
   \<and> chooseMove toy_engine (\<lambda>n. double_0_3) capture_position
        = chooseMove toy_engine (\<lambda>n. 3 / 4) capture_position"
proof -
  have h1: "(always_replace (\<lambda>n. 0) \<and> always_replace (\<lambda>n. 1 / 4))
      \<or> (never_replace (\<lambda>n. 0) \<and> never_replace (\<lambda>n. 1 / 4))"
    by (simp add: always_replace_def double_0_3_value)
  have h2: "selectBest toy_engine (\<lambda>n. 0) capture_position
        = Some (Some (toy_move ''rook'' White 3 4), Fin 0, 1)"
    by code_simp
  have h3: "findPieceByPosition toy_engine capture_position (move_from (toy_move ''rook'' White 3 4))
        = Some (toy_piece ''rook'' White 3)"
    by code_simp
  have h4: "chooseMove toy_engine (\<lambda>n. 1 / 4) capture_position
        = Some (Move (toy_move ''rook'' White 3 4))"
    by code_simp
  have k1: "(always_replace (\<lambda>n. double_0_3) \<and> always_replace (\<lambda>n. 3 / 4))
      \<or> (never_replace (\<lambda>n. double_0_3) \<and> never_replace (\<lambda>n. 3 / 4))"
    by (simp add: never_replace_def double_0_3_value)
  have k2: "selectBest toy_engine (\<lambda>n. double_0_3) capture_position
        = Some (Some (toy_move ''rook'' White 3 4), Fin 0, 1)"
    by code_simp
  from chooseMove_deterministic_when_resolved [OF h1 h2 h3]
    chooseMove_deterministic_when_resolved [OF k1 k2 h3] h1 h2 h3 h4 k1 k2
  show ?thesis
    by blast
qed

section \<open>The original game object is not changed\<close>

lemma update_at_last: "update_at (h @ [g]) (length h) f = h @ [f g]"
  by (simp add: update_at_def)

lemma finishMove_h_last: "finishMove_h E (h @ [g]) (length h) pl = h @ [finishMove E g pl]"
  by (simp add: finishMove_h_def finishMove_def update_at_last Let_def)

lemma simulateMove_h_None:
  assumes "simulateMove E (h ! a) m pl = None"
  shows "\<exists>g'. simulateMove_h E h a m pl = (None, h @ [g'])"
  using assms
  by (auto simp add: simulateMove_h_def simulateMove_def alloc_def update_at_last
      finishMove_h_last Let_def split: option.splits if_splits)

lemma simulateMove_h_Some:
  assumes "simulateMove E (h ! a) m pl = Some c"
  shows "simulateMove_h E h a m pl = (Some (length h), h @ [c])"
  using assms
  by (auto simp add: simulateMove_h_def simulateMove_def alloc_def update_at_last
      finishMove_h_last Let_def split: option.splits if_splits)

lemma simulateRootMove_h_None:
  assumes "simulateRootMove E (h ! a) m pl = None"
  shows "\<exists>g'. simulateRootMove_h E h a m pl = (None, h @ [g'])"
  using assms
  by (auto simp add: simulateRootMove_h_def simulateRootMove_def alloc_def update_at_last
      finishMove_h_last Let_def split: option.splits if_splits)

lemma simulateRootMove_h_Some:
  assumes "simulateRootMove E (h ! a) m pl = Some c"
  shows "simulateRootMove_h E h a m pl = (Some (length h), h @ [c])"
  using assms
  by (auto simp add: simulateRootMove_h_def simulateRootMove_def alloc_def update_at_last
      finishMove_h_last Let_def split: option.splits if_splits)


lemma minimax_h_terminal:
  assumes "depth = 0 \<or> isFinished E (h ! a)"
  shows "minimax_h E h a depth mx ai =
           Some (case winner (h ! a) of
                   Some w \<Rightarrow> if w = ai then PosInf else NegInf
                 | None \<Rightarrow> Fin (evaluateBoard (h ! a) ai), h)"
  using assms by (subst minimax_h.simps) (simp split: option.split)

lemma minimax_h_no_moves:
  assumes "depth \<noteq> 0" and "\<not> isFinished E (h ! a)"
    and "legalMoves E (h ! a) (playerForThisTurn mx ai) = []"
  shows "minimax_h E h a depth mx ai =
           Some (if isCheck E (h ! a) (playerForThisTurn mx ai)
                 then (if mx then NegInf else PosInf) else Fin 0, h)"
  using assms by (subst minimax_h.simps) simp

lemma minimax_h_internal_max:
  assumes "depth \<noteq> 0" and "\<not> isFinished E (h ! a)"
    and "legalMoves E (h ! a) (playerForThisTurn True ai) \<noteq> []"
  shows "minimax_h E h a depth True ai =
           for_each (legalMoves E (h ! a) (playerForThisTurn True ai))
             (\<lambda>move st.
                case simulateMove_h E (snd st) a move (playerForThisTurn True ai) of
                  (None, h) \<Rightarrow> Some (fst st, h)
                | (Some childGameSim, h) \<Rightarrow>
                    Option.bind (minimax_h E h childGameSim (depth - 1) False ai)
                      (\<lambda>r. Some (max (fst st) (fst r), snd r)))
             (NegInf, h)"
  using assms by (subst minimax_h.simps) (simp add: Let_def)

lemma minimax_h_internal_min:
  assumes "depth \<noteq> 0" and "\<not> isFinished E (h ! a)"
    and "legalMoves E (h ! a) (playerForThisTurn False ai) \<noteq> []"
  shows "minimax_h E h a depth False ai =
           for_each (legalMoves E (h ! a) (playerForThisTurn False ai))
             (\<lambda>move st.
                case simulateMove_h E (snd st) a move (playerForThisTurn False ai) of
                  (None, h) \<Rightarrow> Some (fst st, h)
                | (Some childGameSim, h) \<Rightarrow>
                    Option.bind (minimax_h E h childGameSim (depth - 1) True ai)
                      (\<lambda>r. Some (min (fst st) (fst r), snd r)))
             (PosInf, h)"
  using assms by (subst minimax_h.simps) (simp add: Let_def)

lemma prefix_nth:
  assumes "prefix h hc" and "a < length h"
  shows "hc ! a = h ! a"
  using assms by (auto simp add: prefix_def nth_append)

lemma for_each_heap_refines:
  assumes step: "\<And>x acc hc. x \<in> set xs \<Longrightarrow> prefix h hc \<Longrightarrow>
            \<exists>acc' hc'. bodyH x (acc, hc) = Some (acc', hc') \<and> bodyP x acc = Some acc'
                        \<and> prefix h hc'"
    and "prefix h hc"
  shows "\<exists>acc' hc'. for_each xs bodyH (acc, hc) = Some (acc', hc')
                     \<and> for_each xs bodyP acc = Some acc' \<and> prefix h hc'"
  using assms
proof (induction xs arbitrary: acc hc)
  case Nil
  then show ?case by simp
next
  case (Cons x xs)
  from Cons.prems(1) [of x hc acc] Cons.prems(2)
  obtain acc1 hc1 where 1: "bodyH x (acc, hc) = Some (acc1, hc1)" "bodyP x acc = Some acc1"
    "prefix h hc1"
    by auto
  have "\<exists>acc' hc'. for_each xs bodyH (acc1, hc1) = Some (acc', hc')
                     \<and> for_each xs bodyP acc1 = Some acc' \<and> prefix h hc'"
    by (rule Cons.IH) (use Cons.prems(1) 1(3) in auto)
  with 1 show ?case by simp
qed

lemma search_step_refines:
  assumes rec: "\<And>c hc. \<exists>v h'. searchH (hc @ [c]) (length hc) = Some (v, h')
                  \<and> searchP c = Some v \<and> prefix (hc @ [c]) h'"
    and none: "\<And>hc. prefix h hc \<Longrightarrow> simP = None \<Longrightarrow> \<exists>g'. simH hc = (None, hc @ [g'])"
    and some: "\<And>hc c. prefix h hc \<Longrightarrow> simP = Some c \<Longrightarrow> simH hc = (Some (length hc), hc @ [c])"
    and pre: "prefix h hc"
  shows "\<exists>acc' hc'.
           (case simH hc of
              (None, h1) \<Rightarrow> Some (acc, h1)
            | (Some child, h1) \<Rightarrow>
                Option.bind (searchH h1 child) (\<lambda>r. Some (combine acc (fst r), snd r)))
             = Some (acc', hc')
           \<and> (case simP of
                 None \<Rightarrow> Some acc
               | Some child \<Rightarrow> Option.bind (searchP child) (\<lambda>v. Some (combine acc v)))
               = Some acc'
           \<and> prefix h hc'"
proof (cases simP)
  case None
  from none [OF pre None] obtain g' where "simH hc = (None, hc @ [g'])" by blast
  moreover from pre have "prefix h (hc @ [g'])" by (rule prefix_prefix)
  ultimately show ?thesis using None by simp
next
  case (Some c)
  from some [OF pre Some] have sim: "simH hc = (Some (length hc), hc @ [c])" .
  from rec [of hc c] obtain v h' where r: "searchH (hc @ [c]) (length hc) = Some (v, h')"
    "searchP c = Some v" "prefix (hc @ [c]) h'"
    by blast
  from pre have "prefix h (hc @ [c])" by (rule prefix_prefix)
  from this r(3) have "prefix h h'" by (rule prefix_order.trans)
  with sim r Some show ?thesis by simp
qed

lemma minimax_h_refines:
  assumes "0 \<le> depth" and "a < length h"
  shows "\<exists>v h'. minimax_h E h a depth mx ai = Some (v, h')
                 \<and> minimax E (h ! a) depth mx ai = Some v \<and> prefix h h'"
  using assms
proof (induction "nat depth" arbitrary: depth h a mx)
  case 0
  then have "depth = 0" by simp
  then show ?case by (simp add: minimax_h_terminal minimax_terminal)
next
  case (Suc n)
  then have pos: "depth \<noteq> 0" and n: "n = nat (depth - 1)" and nonneg: "0 \<le> depth - 1"
    by simp_all
  show ?case
  proof (cases "isFinished E (h ! a)")
    case True
    then show ?thesis by (simp add: minimax_h_terminal minimax_terminal)
  next
    case False
    show ?thesis
    proof (cases "legalMoves E (h ! a) (playerForThisTurn mx ai) = []")
      case True
      with pos False show ?thesis by (simp add: minimax_h_no_moves minimax_no_moves)
    next
      case nonempty: False
      have rec: "\<exists>v h'. minimax_h E (hc @ [c]) (length hc) (depth - 1) mx' ai = Some (v, h')
                  \<and> minimax E c (depth - 1) mx' ai = Some v \<and> prefix (hc @ [c]) h'"
        for c hc mx'
        using Suc.hyps(1) [OF n nonneg, of "length hc" "hc @ [c]" mx'] by simp
      have none: "\<exists>g'. simulateMove_h E hc a move pl = (None, hc @ [g'])"
        if "prefix h hc" and "simulateMove E (h ! a) move pl = None" for hc move pl
        using that prefix_nth [OF that(1) Suc.prems(2)] by (intro simulateMove_h_None) simp
      have some: "simulateMove_h E hc a move pl = (Some (length hc), hc @ [c])"
        if "prefix h hc" and "simulateMove E (h ! a) move pl = Some c" for hc move pl c
        using that prefix_nth [OF that(1) Suc.prems(2)] by (intro simulateMove_h_Some) simp
      show ?thesis
      proof (cases mx)
        case True
        then have mx: "mx = True" by simp
        have "\<exists>acc' hc'.
                for_each (legalMoves E (h ! a) (playerForThisTurn True ai))
                  (\<lambda>move st.
                     case simulateMove_h E (snd st) a move (playerForThisTurn True ai) of
                       (None, h) \<Rightarrow> Some (fst st, h)
                     | (Some childGameSim, h) \<Rightarrow>
                         Option.bind (minimax_h E h childGameSim (depth - 1) False ai)
                           (\<lambda>r. Some (max (fst st) (fst r), snd r)))
                  (NegInf, h) = Some (acc', hc')
              \<and> for_each (legalMoves E (h ! a) (playerForThisTurn True ai))
                  (\<lambda>move maxEval.
                     case simulateMove E (h ! a) move (playerForThisTurn True ai) of
                       None \<Rightarrow> Some maxEval
                     | Some childGameSim \<Rightarrow>
                         Option.bind (minimax E childGameSim (depth - 1) False ai)
                           (\<lambda>evalScore. Some (max maxEval evalScore)))
                  NegInf = Some acc'
              \<and> prefix h hc'"
        proof (rule for_each_heap_refines)
          show "prefix h h" by simp
        next
          fix move acc hc
          assume pre: "prefix h hc"
          from search_step_refines [of "\<lambda>h c. minimax_h E h c (depth - 1) False ai"
              "\<lambda>c. minimax E c (depth - 1) False ai" h
              "simulateMove E (h ! a) move (playerForThisTurn True ai)"
              "\<lambda>hc. simulateMove_h E hc a move (playerForThisTurn True ai)" hc acc max,
              OF rec none some pre]
          show "\<exists>acc' hc'.
              (case simulateMove_h E (snd (acc, hc)) a move (playerForThisTurn True ai) of
                       (None, h) \<Rightarrow> Some (fst (acc, hc), h)
                     | (Some childGameSim, h) \<Rightarrow>
                         Option.bind (minimax_h E h childGameSim (depth - 1) False ai)
                           (\<lambda>r. Some (max (fst (acc, hc)) (fst r), snd r))) = Some (acc', hc')
              \<and> (case simulateMove E (h ! a) move (playerForThisTurn True ai) of
                       None \<Rightarrow> Some acc
                     | Some childGameSim \<Rightarrow>
                         Option.bind (minimax E childGameSim (depth - 1) False ai)
                           (\<lambda>evalScore. Some (max acc evalScore))) = Some acc'
              \<and> prefix h hc'"
            by (simp cong: option.case_cong prod.case_cong)
        qed
        then show ?thesis
          unfolding mx minimax_h_internal_max [OF pos False nonempty [unfolded mx]]
            minimax_internal_max [OF pos False nonempty [unfolded mx]]
          by blast
      next
        case mn: False
        then have mx: "mx = False" by simp
        have "\<exists>acc' hc'.
                for_each (legalMoves E (h ! a) (playerForThisTurn False ai))
                  (\<lambda>move st.
                     case simulateMove_h E (snd st) a move (playerForThisTurn False ai) of
                       (None, h) \<Rightarrow> Some (fst st, h)
                     | (Some childGameSim, h) \<Rightarrow>
                         Option.bind (minimax_h E h childGameSim (depth - 1) True ai)
                           (\<lambda>r. Some (min (fst st) (fst r), snd r)))
                  (PosInf, h) = Some (acc', hc')
              \<and> for_each (legalMoves E (h ! a) (playerForThisTurn False ai))
                  (\<lambda>move minEval.
                     case simulateMove E (h ! a) move (playerForThisTurn False ai) of
                       None \<Rightarrow> Some minEval
                     | Some childGameSim \<Rightarrow>
                         Option.bind (minimax E childGameSim (depth - 1) True ai)
                           (\<lambda>evalScore. Some (min minEval evalScore)))
                  PosInf = Some acc'
              \<and> prefix h hc'"
        proof (rule for_each_heap_refines)
          show "prefix h h" by simp
        next
          fix move acc hc
          assume pre: "prefix h hc"
          from search_step_refines [of "\<lambda>h c. minimax_h E h c (depth - 1) True ai"
              "\<lambda>c. minimax E c (depth - 1) True ai" h
              "simulateMove E (h ! a) move (playerForThisTurn False ai)"
              "\<lambda>hc. simulateMove_h E hc a move (playerForThisTurn False ai)" hc acc min,
              OF rec none some pre]
          show "\<exists>acc' hc'.
              (case simulateMove_h E (snd (acc, hc)) a move (playerForThisTurn False ai) of
                       (None, h) \<Rightarrow> Some (fst (acc, hc), h)
                     | (Some childGameSim, h) \<Rightarrow>
                         Option.bind (minimax_h E h childGameSim (depth - 1) True ai)
                           (\<lambda>r. Some (min (fst (acc, hc)) (fst r), snd r))) = Some (acc', hc')
              \<and> (case simulateMove E (h ! a) move (playerForThisTurn False ai) of
                       None \<Rightarrow> Some acc
                     | Some childGameSim \<Rightarrow>
                         Option.bind (minimax E childGameSim (depth - 1) True ai)
                           (\<lambda>evalScore. Some (min acc evalScore))) = Some acc'
              \<and> prefix h hc'"
            by (simp cong: option.case_cong prod.case_cong)
        qed
        then show ?thesis
          unfolding mx minimax_h_internal_min [OF pos False nonempty [unfolded mx]]
            minimax_internal_min [OF pos False nonempty [unfolded mx]]
          by blast
      qed
    qed
  qed
qed


lemma selectBest_h_refines:
  assumes "a < length h"
  shows "\<exists>st h'. for_each moves (rootStep_h E rnd a c) ((None, NegInf, 0), h) = Some (st, h')
                  \<and> for_each moves (rootStep E rnd (h ! a) c) (None, NegInf, 0) = Some st
                  \<and> prefix h h'"
proof (rule for_each_heap_refines)
  show "prefix h h" by simp
next
  fix move hc and acc :: "'a move option \<times> score \<times> nat"
  assume pre: "prefix h hc"
  have rec: "\<exists>v h'. minimax_h E (hc @ [g]) (length hc) (SEARCH_DEPTH - 1) False c = Some (v, h')
                  \<and> minimax E g (SEARCH_DEPTH - 1) False c = Some v \<and> prefix (hc @ [g]) h'"
    for g hc
    using minimax_h_refines [of "SEARCH_DEPTH - 1" "length hc" "hc @ [g]" E False c]
    by (simp add: SEARCH_DEPTH_def)
  have none: "\<exists>g'. simulateRootMove_h E hc a move c = (None, hc @ [g'])"
    if "prefix h hc" and "simulateRootMove E (h ! a) move c = None" for hc
    using that prefix_nth [OF that(1) assms] by (intro simulateRootMove_h_None) simp
  have some: "simulateRootMove_h E hc a move c = (Some (length hc), hc @ [g])"
    if "prefix h hc" and "simulateRootMove E (h ! a) move c = Some g" for hc g
    using that prefix_nth [OF that(1) assms] by (intro simulateRootMove_h_Some) simp
  from search_step_refines [of "\<lambda>h g. minimax_h E h g (SEARCH_DEPTH - 1) False c"
      "\<lambda>g. minimax E g (SEARCH_DEPTH - 1) False c" h
      "simulateRootMove E (h ! a) move c"
      "\<lambda>hc. simulateRootMove_h E hc a move c" hc acc "updateBest rnd move",
      OF rec none some pre]
  show "\<exists>acc' hc'. rootStep_h E rnd a c move (acc, hc) = Some (acc', hc')
          \<and> rootStep E rnd (h ! a) c move acc = Some acc' \<and> prefix h hc'"
    unfolding rootStep_h_def rootStep_def
    by (simp cong: option.case_cong prod.case_cong)
qed

text \<open>
  C8.  A call of \<^verbatim>\<open>chooseMove\<close> on a game object of the heap runs to completion and,
  with all the calls of \<^verbatim>\<open>minimax\<close> it makes, leaves that object as it was: pieces with
  their positions, kinds and colours, side to move and winner.  Every object that was on
  the heap before the call is unchanged; the simulated moves are made on objects
  allocated during the call.  The result is the result of \<^verbatim>\<open>chooseMove\<close> as defined on
  values.
\<close>

theorem chooseMove_leaves_original_unchanged:
  assumes "gameInstance < length h"
  shows "\<exists>r h'. chooseMove_h E rnd h gameInstance = Some (r, h')
                 \<and> h' ! gameInstance = h ! gameInstance
                 \<and> take (length h) h' = h
                 \<and> chooseMove E rnd (h ! gameInstance) = Some r"
proof (cases "legalMoves E (h ! gameInstance) (currentPlayer (h ! gameInstance)) = []")
  case True
  then show ?thesis
    by (simp add: chooseMove_h_def chooseMove_def)
next
  case False
  let ?g = "h ! gameInstance"
  let ?ms = "legalMoves E ?g (currentPlayer ?g)"
  from selectBest_h_refines [OF assms, of ?ms E rnd "currentPlayer ?g"]
  obtain st h' where
    loop_h: "for_each ?ms (rootStep_h E rnd gameInstance (currentPlayer ?g))
               ((None, NegInf, 0), h) = Some (st, h')"
    and loop: "for_each ?ms (rootStep E rnd ?g (currentPlayer ?g)) (None, NegInf, 0) = Some st"
    and pre: "prefix h h'"
    by blast
  from pre assms have same: "h' ! gameInstance = ?g"
    by (rule prefix_nth)
  from pre have frame: "take (length h) h' = h"
    by (auto simp add: prefix_def)
  have "chooseMove_h E rnd h gameInstance = Some (resolveMove E rnd ?g ?ms st, h')"
    using False loop_h same by (simp add: chooseMove_h_def Let_def)
  moreover have "chooseMove E rnd ?g = Some (resolveMove E rnd ?g ?ms st)"
    using False loop by (simp add: chooseMove_def selectBest_def Let_def)
  ultimately show ?thesis
    using same frame by simp
qed

theorem chooseMove_leaves_original_unchanged_witness:
  "(0::nat) < length [capture_position]
   \<and> (\<exists>r h'. chooseMove_h toy_engine (\<lambda>n. 0) [capture_position] 0 = Some (r, h')
                 \<and> h' ! 0 = [capture_position] ! 0
                 \<and> take (length [capture_position]) h' = [capture_position]
                 \<and> chooseMove toy_engine (\<lambda>n. 0) ([capture_position] ! 0) = Some r)"
  using chooseMove_leaves_original_unchanged [of 0 "[capture_position]" toy_engine "\<lambda>n. 0"]
  by simp

end
